theory Spec2Isabelle
  imports Main "HOL-Library.Word"
begin

section \<open>VaultRocket: confidential fundraising ledger\<close>

text \<open>
  A shallow embedding of \<^verbatim>\<open>contracts/VaultRocket.sol\<close> and of the client's
  \<^verbatim>\<open>parseAmount\<close>. A transaction is a function from the chain state to either
  an error (the transaction reverts and the state stays as it was) or the new state.
\<close>

subsection \<open>Data\<close>

type_synonym address = "160 word"
type_synonym uint64 = "64 word"

text \<open>
  A \<^verbatim>\<open>euint64\<close> is a 32-byte handle; the all-zero handle is the uninitialized one.
  A handle of the coprocessor is modelled by a number that identifies it, together with
  the plaintext the coprocessor holds for it. The number is opaque: no result below
  depends on which number a handle gets.
\<close>

datatype euint64 = Uninitialized | Handle nat uint64

fun decrypt :: "euint64 \<Rightarrow> uint64" where
  "decrypt Uninitialized = 0"
| "decrypt (Handle h v) = v"

record Campaign =
  name :: string
  targetAmount :: uint64
  endTimestamp :: uint64
  finalized :: bool
  totalRaised :: euint64

definition noCampaign :: Campaign where
  "noCampaign = \<lparr>name = [], targetAmount = 0, endTimestamp = 0, finalized = False,
     totalRaised = Uninitialized\<rparr>"

datatype event =
    CampaignConfigured nat string uint64 uint64
  | ContributionReceived nat address euint64
  | CampaignClosed nat address euint64 uint64

datatype error =
    CampaignNotConfigured
  | CampaignAlreadyFinalized
  | CampaignEnded
  | InvalidEndTimestamp
  | OwnableUnauthorizedAccount address
  | ArithmeticOverflow
  | InvalidInputProof
  | UnauthorizedSpender address address

text \<open>
  The chain state the contract reads and writes: its own storage, the event log, the
  payment token's storage, and the coprocessor's handle counter and access-control list.
  \<open>acl\<close> holds the grants of the \<^verbatim>\<open>FHE.allow\<close> calls of VaultRocket, in call order.
\<close>

record chain =
  owner :: address
  self :: address
  paymentToken :: address
  campaignId :: nat
  campaigns :: "nat \<Rightarrow> Campaign"
  contributions :: "nat \<Rightarrow> address \<Rightarrow> euint64"
  events :: "event list"
  balances :: "address \<Rightarrow> euint64"
  operators :: "address \<Rightarrow> address \<Rightarrow> nat"
  nextHandle :: nat
  acl :: "(euint64 \<times> address) list"

subsection \<open>The FHE library calls the contract makes\<close>

definition FHE_asEuint64 :: "uint64 \<Rightarrow> chain \<Rightarrow> euint64 \<times> chain" where
  "FHE_asEuint64 v s = (Handle (nextHandle s) v, s\<lparr>nextHandle := Suc (nextHandle s)\<rparr>)"

definition FHE_isInitialized :: "euint64 \<Rightarrow> bool" where
  "FHE_isInitialized h = (h \<noteq> Uninitialized)"

text \<open>\<^verbatim>\<open>FHE.add\<close> reads an uninitialized operand as an encrypted zero; the sum is a 64-bit sum.\<close>

definition FHE_add :: "euint64 \<Rightarrow> euint64 \<Rightarrow> chain \<Rightarrow> euint64 \<times> chain" where
  "FHE_add a b s =
     (let (a1, s1) = (if FHE_isInitialized a then (a, s) else FHE_asEuint64 0 s);
          (b1, s2) = (if FHE_isInitialized b then (b, s1) else FHE_asEuint64 0 s1)
      in FHE_asEuint64 (decrypt a1 + decrypt b1) s2)"

definition FHE_allow :: "euint64 \<Rightarrow> address \<Rightarrow> chain \<Rightarrow> chain" where
  "FHE_allow h a s = s\<lparr>acl := acl s @ [(h, a)]\<rparr>"

definition FHE_allowThis :: "euint64 \<Rightarrow> chain \<Rightarrow> chain" where
  "FHE_allowThis h s = FHE_allow h (self s) s"

text \<open>
  \<^verbatim>\<open>FHE.fromExternal(encryptedAmount, inputProof)\<close>: the external ciphertext is given by the
  plaintext the client encrypted, the proof by whether it verifies for this contract and
  caller. A proof that does not verify reverts the call.
\<close>

definition FHE_fromExternal :: "uint64 \<Rightarrow> bool \<Rightarrow> chain \<Rightarrow> error + (euint64 \<times> chain)" where
  "FHE_fromExternal encryptedAmount inputProof s =
     (if inputProof then Inr (FHE_asEuint64 encryptedAmount s) else Inl InvalidInputProof)"

subsection \<open>The payment token\<close>

text \<open>
  Modelled from the spec: \<^verbatim>\<open>contracts/ConfidentialUSDT.sol\<close> is not among the sources.
  The spec names what the token exposes: mint, encrypted transfer, encrypted
  transfer-from-with-operator and encrypted balance-of, where an operator approval is a
  time-boxed permission letting one party move encrypted-balance funds on behalf of
  another. A transfer moves the requested amount when the holder's balance covers it and
  nothing otherwise, and returns the handle of the amount moved.
\<close>

definition confidentialBalanceOf :: "address \<Rightarrow> chain \<Rightarrow> euint64" where
  "confidentialBalanceOf a s = balances s a"

definition isOperator :: "address \<Rightarrow> address \<Rightarrow> nat \<Rightarrow> chain \<Rightarrow> bool" where
  "isOperator holder spender now s = (holder = spender \<or> now \<le> operators s holder spender)"

definition setOperator :: "address \<Rightarrow> address \<Rightarrow> nat \<Rightarrow> chain \<Rightarrow> chain" where
  "setOperator holder spender until s =
     s\<lparr>operators := (operators s)(holder := (operators s holder)(spender := until))\<rparr>"

definition token_move :: "address \<Rightarrow> address \<Rightarrow> euint64 \<Rightarrow> chain \<Rightarrow> euint64 \<times> chain" where
  "token_move from to amount s =
     (let moved = (if decrypt amount \<le> decrypt (balances s from) then decrypt amount else 0);
          (debited, s1) = FHE_asEuint64 (decrypt (balances s from) - moved) s;
          s2 = s1\<lparr>balances := (balances s1)(from := debited)\<rparr>;
          (transferred, s3) = FHE_asEuint64 moved s2;
          (credited, s4) = FHE_add (balances s3 to) transferred s3
      in (transferred, s4\<lparr>balances := (balances s4)(to := credited)\<rparr>))"

definition confidentialTransferFrom ::
  "address \<Rightarrow> address \<Rightarrow> address \<Rightarrow> euint64 \<Rightarrow> nat \<Rightarrow> chain \<Rightarrow> error + (euint64 \<times> chain)" where
  "confidentialTransferFrom caller from to amount now s =
     (if isOperator from caller now s then Inr (token_move from to amount s)
      else Inl (UnauthorizedSpender from caller))"

definition confidentialTransfer :: "address \<Rightarrow> address \<Rightarrow> euint64 \<Rightarrow> chain \<Rightarrow> euint64 \<times> chain" where
  "confidentialTransfer caller to amount s = token_move caller to amount s"

definition mint :: "address \<Rightarrow> uint64 \<Rightarrow> chain \<Rightarrow> chain" where
  "mint to amount s =
     (let (minted, s1) = FHE_asEuint64 amount s;
          (credited, s2) = FHE_add (balances s1 to) minted s1
      in s2\<lparr>balances := (balances s2)(to := credited)\<rparr>)"

subsection \<open>VaultRocket\<close>

definition deploy :: "address \<Rightarrow> address \<Rightarrow> address \<Rightarrow> chain" where
  "deploy deployer vaultAddress tokenAddress =
     \<lparr>owner = deployer, self = vaultAddress, paymentToken = tokenAddress, campaignId = 0,
      campaigns = (\<lambda>_. noCampaign), contributions = (\<lambda>_ _. Uninitialized), events = [],
      balances = (\<lambda>_. Uninitialized), operators = (\<lambda>_ _. 0), nextHandle = 1, acl = []\<rparr>"

definition setCampaign :: "nat \<Rightarrow> (Campaign \<Rightarrow> Campaign) \<Rightarrow> chain \<Rightarrow> chain" where
  "setCampaign i f s = s\<lparr>campaigns := (campaigns s)(i := f (campaigns s i))\<rparr>"

definition setContribution :: "nat \<Rightarrow> address \<Rightarrow> euint64 \<Rightarrow> chain \<Rightarrow> chain" where
  "setContribution i a h s =
     s\<lparr>contributions := (contributions s)(i := (contributions s i)(a := h))\<rparr>"

definition emit :: "event \<Rightarrow> chain \<Rightarrow> chain" where
  "emit e s = s\<lparr>events := events s @ [e]\<rparr>"

definition maxUint256 :: nat where
  "maxUint256 = 2 ^ 256 - 1"

text \<open>
  \<^verbatim>\<open>configureCampaign\<close>. \<open>current\<close> is the storage pointer, held as the id it points to.
\<close>

definition configureCampaign ::
  "address \<Rightarrow> nat \<Rightarrow> string \<Rightarrow> uint64 \<Rightarrow> uint64 \<Rightarrow> chain \<Rightarrow> error + chain" where
  "configureCampaign sender now nm target endTs s =
     (if sender \<noteq> owner s then Inl (OwnableUnauthorizedAccount sender)
      else if unat endTs \<le> now then Inl InvalidEndTimestamp
      else if (campaignId s = 0 \<or> finalized (campaigns s (campaignId s)))
              \<and> campaignId s = maxUint256 then Inl ArithmeticOverflow
      else
        let s1 = (if campaignId s = 0 \<or> finalized (campaigns s (campaignId s))
                  then (let s' = s\<lparr>campaignId := campaignId s + 1\<rparr>;
                            (zero, s'') = FHE_asEuint64 0 s'
                        in setCampaign (campaignId s'') (\<lambda>c. c\<lparr>totalRaised := zero\<rparr>) s'')
                  else s);
            current = campaignId s1;
            s2 = (if \<not> FHE_isInitialized (totalRaised (campaigns s1 current))
                  then (let (zero, s') = FHE_asEuint64 0 s1
                        in setCampaign current (\<lambda>c. c\<lparr>totalRaised := zero\<rparr>) s')
                  else s1);
            s3 = setCampaign current
                   (\<lambda>c. c\<lparr>name := nm, targetAmount := target, endTimestamp := endTs,
                           finalized := False\<rparr>) s2
        in Inr (emit (CampaignConfigured (campaignId s3) nm target endTs) s3))"

text \<open>\<^verbatim>\<open>contribute\<close> returns the caller's updated per-contributor handle.\<close>

definition contribute ::
  "address \<Rightarrow> nat \<Rightarrow> uint64 \<Rightarrow> bool \<Rightarrow> chain \<Rightarrow> error + (euint64 \<times> chain)" where
  "contribute sender now encryptedAmount inputProof s =
     (if campaignId s = 0 then Inl CampaignNotConfigured
      else if finalized (campaigns s (campaignId s)) then Inl CampaignAlreadyFinalized
      else if unat (endTimestamp (campaigns s (campaignId s))) \<le> now then Inl CampaignEnded
      else
        case FHE_fromExternal encryptedAmount inputProof s of
          Inl e \<Rightarrow> Inl e
        | Inr (contributionAmount, s1) \<Rightarrow>
            let s2 = FHE_allow contributionAmount (self s1) s1;
                s3 = FHE_allow contributionAmount (paymentToken s2) s2
            in (case confidentialTransferFrom (self s3) sender (self s3) contributionAmount now s3 of
                 Inl e \<Rightarrow> Inl e
               | Inr (transferred, s4) \<Rightarrow>
                   let current = campaignId s4;
                       (mine, s5) = FHE_add (contributions s4 current sender) transferred s4;
                       s6 = setContribution current sender mine s5;
                       (total, s7) = FHE_add (totalRaised (campaigns s6 current)) transferred s6;
                       s8 = setCampaign current (\<lambda>c. c\<lparr>totalRaised := total\<rparr>) s7;
                       s9 = FHE_allowThis (contributions s8 current sender) s8;
                       s10 = FHE_allow (contributions s9 current sender) sender s9;
                       s11 = FHE_allowThis (totalRaised (campaigns s10 current)) s10;
                       s12 = FHE_allow (totalRaised (campaigns s11 current)) (owner s11) s11;
                       s13 = emit (ContributionReceived current sender transferred) s12
                   in Inr (contributions s13 current sender, s13)))"

text \<open>\<^verbatim>\<open>closeCampaign\<close> returns the payout handle.\<close>

definition closeCampaign :: "address \<Rightarrow> nat \<Rightarrow> chain \<Rightarrow> error + (euint64 \<times> chain)" where
  "closeCampaign sender now s =
     (if sender \<noteq> owner s then Inl (OwnableUnauthorizedAccount sender)
      else if campaignId s = 0 then Inl CampaignNotConfigured
      else if finalized (campaigns s (campaignId s)) then Inl CampaignAlreadyFinalized
      else
        let current = campaignId s;
            s1 = setCampaign current (\<lambda>c. c\<lparr>finalized := True\<rparr>) s;
            contractBalance = confidentialBalanceOf (self s1) s1
        in if \<not> FHE_isInitialized contractBalance
           then (let (zeroCipher, s2) = FHE_asEuint64 0 s1;
                     s3 = FHE_allowThis zeroCipher s2;
                     s4 = FHE_allow zeroCipher (owner s3) s3
                 in Inr (zeroCipher,
                      emit (CampaignClosed (campaignId s4) (owner s4) zeroCipher (word_of_nat now)) s4))
           else (let (payout, s2) = confidentialTransfer (self s1) (owner s1) contractBalance s1
                 in Inr (payout,
                      emit (CampaignClosed (campaignId s2) (owner s2) payout (word_of_nat now)) s2)))"

text \<open>The read accessors. A revert of a view call is an error value, as for a transaction.\<close>

definition getCampaign ::
  "chain \<Rightarrow> error + (string \<times> uint64 \<times> uint64 \<times> bool \<times> address \<times> euint64)" where
  "getCampaign s =
     (if campaignId s = 0 then Inl CampaignNotConfigured
      else let current = campaigns s (campaignId s)
           in Inr (name current, targetAmount current, endTimestamp current, finalized current,
                   owner s, totalRaised current))"

definition getContribution :: "nat \<Rightarrow> address \<Rightarrow> chain \<Rightarrow> error + euint64" where
  "getContribution i contributor s = Inr (contributions s i contributor)"

definition activeCampaignId :: "chain \<Rightarrow> error + nat" where
  "activeCampaignId s = (if campaignId s = 0 then Inl CampaignNotConfigured else Inr (campaignId s))"

definition isActive :: "nat \<Rightarrow> chain \<Rightarrow> error + bool" where
  "isActive now s =
     (if campaignId s = 0 then Inr False
      else if finalized (campaigns s (campaignId s)) then Inr False
      else Inr (now < unat (endTimestamp (campaigns s (campaignId s)))))"

subsection \<open>Transactions and runs\<close>

text \<open>
  A call names its sender and the block timestamp. \<open>exec\<close> gives the state after the
  transaction: a reverted call leaves the state as it was. \<open>run\<close> executes calls in order.
\<close>

datatype call =
    Configure address nat string uint64 uint64
  | Contribute address nat uint64 bool
  | Close address nat
  | Mint address uint64
  | SetOperator address address nat

fun exec :: "call \<Rightarrow> chain \<Rightarrow> chain" where
  "exec (Configure sender now nm target endTs) s =
     (case configureCampaign sender now nm target endTs s of Inl e \<Rightarrow> s | Inr s' \<Rightarrow> s')"
| "exec (Contribute sender now amount proof) s =
     (case contribute sender now amount proof s of Inl e \<Rightarrow> s | Inr (r, s') \<Rightarrow> s')"
| "exec (Close sender now) s =
     (case closeCampaign sender now s of Inl e \<Rightarrow> s | Inr (r, s') \<Rightarrow> s')"
| "exec (Mint to amount) s = mint to amount s"
| "exec (SetOperator holder spender until) s = setOperator holder spender until s"

definition run :: "chain \<Rightarrow> call list \<Rightarrow> chain" where
  "run s cs = foldl (\<lambda>st c. exec c st) s cs"

subsection \<open>The client's amount parser\<close>

text \<open>
  \<^verbatim>\<open>parseAmount\<close> of the web client. A JavaScript string is a list of UTF-16 code
  units; \<^verbatim>\<open>bigint | null\<close> is \<open>int option\<close>.
\<close>

type_synonym jsstring = "nat list"

definition js :: "string \<Rightarrow> jsstring" where
  "js cs = map of_char cs"

text \<open>White space and line terminators, as \<^verbatim>\<open>String.prototype.trim\<close> strips them.\<close>

definition isWhiteSpace :: "nat \<Rightarrow> bool" where
  "isWhiteSpace c =
     (c \<in> {9, 10, 11, 12, 13, 32, 160, 5760, 8232, 8233, 8239, 8287, 12288, 65279}
      \<or> (8192 \<le> c \<and> c \<le> 8202))"

definition trim :: "jsstring \<Rightarrow> jsstring" where
  "trim cs = rev (dropWhile isWhiteSpace (rev (dropWhile isWhiteSpace cs)))"

text \<open>\<^verbatim>\<open>split\<close> on a one-character separator: the empty string gives one empty part.\<close>

fun split :: "nat \<Rightarrow> jsstring \<Rightarrow> jsstring list" where
  "split sep [] = [[]]"
| "split sep (c # cs) =
     (if c = sep then [] # split sep cs
      else (case split sep cs of [] \<Rightarrow> [[c]] | p # ps \<Rightarrow> (c # p) # ps))"

definition isDigit :: "nat \<Rightarrow> bool" where
  "isDigit c = (48 \<le> c \<and> c \<le> 57)"

text \<open>\<^verbatim>\<open>BigInt\<close> of a string of decimal digits.\<close>

definition BigInt :: "jsstring \<Rightarrow> int" where
  "BigInt ds = foldl (\<lambda>n c. 10 * n + (int c - 48)) 0 ds"

definition parseAmount :: "jsstring \<Rightarrow> int option" where
  "parseAmount input =
     (let trimmed = trim input in
      if trimmed = [] then None
      else (case split 46 trimmed of
              [] \<Rightarrow> None
            | whole # rest \<Rightarrow>
                let fraction = (case rest of [] \<Rightarrow> [] | f # _ \<Rightarrow> f) in
                if \<not> (whole \<noteq> [] \<and> list_all isDigit whole) \<or> \<not> list_all isDigit fraction
                then None
                else let paddedFraction = take 6 (fraction @ js ''000000'')
                     in Some (BigInt (whole @ paddedFraction))))"

subsection \<open>Notions the statements use\<close>

text \<open>
  The event log records every successful contribution with the handle of the amount the
  token transferred. \<open>contributedBy i c\<close> is the 64-bit sum of the amounts contributor
  \<open>c\<close> got through to campaign \<open>i\<close>, \<open>raisedIn i\<close> the sum over all contributors.
\<close>

fun received :: "nat \<Rightarrow> address \<Rightarrow> event \<Rightarrow> uint64" where
  "received i c (ContributionReceived j a h) = (if j = i \<and> a = c then decrypt h else 0)"
| "received i c (CampaignConfigured j nm tg e) = 0"
| "received i c (CampaignClosed j a h t) = 0"

definition contributedBy :: "nat \<Rightarrow> address \<Rightarrow> event list \<Rightarrow> uint64" where
  "contributedBy i c evs = sum_list (map (received i c) evs)"

fun receivedIn :: "nat \<Rightarrow> event \<Rightarrow> uint64" where
  "receivedIn i (ContributionReceived j a h) = (if j = i then decrypt h else 0)"
| "receivedIn i (CampaignConfigured j nm tg e) = 0"
| "receivedIn i (CampaignClosed j a h t) = 0"

definition raisedIn :: "nat \<Rightarrow> event list \<Rightarrow> uint64" where
  "raisedIn i evs = sum_list (map (receivedIn i) evs)"

fun isContribution :: "nat \<Rightarrow> address \<Rightarrow> event \<Rightarrow> bool" where
  "isContribution i c (ContributionReceived j a h) = (j = i \<and> a = c)"
| "isContribution i c (CampaignConfigured j nm tg e) = False"
| "isContribution i c (CampaignClosed j a h t) = False"

definition hasContributed :: "nat \<Rightarrow> address \<Rightarrow> event list \<Rightarrow> bool" where
  "hasContributed i c evs = list_ex (isContribution i c) evs"

text \<open>
  What holds of every state a run reaches from deployment: storage at id 0 and above the
  current id is untouched; every allocated campaign has an initialized total; every id
  below the current one is finalized; the stored ciphertexts decrypt to the sums the
  event log gives; and an entry is initialized exactly when its contributor got a
  contribution through.
\<close>

definition untouchedAbove :: "chain \<Rightarrow> bool" where
  "untouchedAbove s =
     (\<forall>i. (i = 0 \<or> campaignId s < i) \<longrightarrow>
          campaigns s i = noCampaign \<and> contributions s i = (\<lambda>_. Uninitialized))"

definition totalsInitialized :: "chain \<Rightarrow> bool" where
  "totalsInitialized s =
     (\<forall>i. 0 < i \<and> i \<le> campaignId s \<longrightarrow> totalRaised (campaigns s i) \<noteq> Uninitialized)"

definition pastFinalized :: "chain \<Rightarrow> bool" where
  "pastFinalized s = (\<forall>i. 0 < i \<and> i < campaignId s \<longrightarrow> finalized (campaigns s i))"


definition entriesMatchLog :: "chain \<Rightarrow> bool" where
  "entriesMatchLog s =
     (\<forall>i c. contributions s i c \<noteq> Uninitialized \<longleftrightarrow> hasContributed i c (events s))"





text \<open>
  A call brings tokens to the contract only through \<^verbatim>\<open>contribute\<close> when it is
  neither a mint to the contract's address nor a contribution sent by the contract itself.
\<close>

fun viaContribute :: "address \<Rightarrow> call \<Rightarrow> bool" where
  "viaContribute v (Mint to amount) = (to \<noteq> v)"
| "viaContribute v (Contribute sender now amount proof) = (sender \<noteq> v)"
| "viaContribute v (Configure sender now nm target endTs) = True"
| "viaContribute v (Close sender now) = True"
| "viaContribute v (SetOperator holder spender until) = True"

definition balanceIsTotal :: "chain \<Rightarrow> bool" where
  "balanceIsTotal s =
     (decrypt (balances s (self s)) =
        (if campaignId s \<noteq> 0 \<and> \<not> finalized (campaigns s (campaignId s))
         then decrypt (totalRaised (campaigns s (campaignId s))) else 0))"

text \<open>Calls by kind, for statements about sequences of one kind of call.\<close>

fun isConfigure :: "call \<Rightarrow> bool" where
  "isConfigure (Configure sender now nm target endTs) = True"
| "isConfigure (Contribute sender now amount proof) = False"
| "isConfigure (Close sender now) = False"
| "isConfigure (Mint to amount) = False"
| "isConfigure (SetOperator holder spender until) = False"

subsection \<open>A concrete deployment\<close>

text \<open>
  The scenario of the repository's tests: the fundraiser deploys, configures the campaign
  "Demo" with target 2000000 ending an hour after block time 1000; Alice is minted
  5000000 and approves the vault as her operator.
\<close>

definition fundraiser :: address where "fundraiser = 1"
definition vault :: address where "vault = 2"
definition cusdt :: address where "cusdt = 3"
definition alice :: address where "alice = 4"
definition bob :: address where "bob = 5"

definition deployed :: chain where
  "deployed = deploy fundraiser vault cusdt"

definition demo :: chain where
  "demo = run deployed
     [Configure fundraiser 1000 ''Demo'' 2000000 4600, Mint alice 5000000,
      SetOperator alice vault 4600]"

text \<open>Alice then contributes 1250000 at block time 2000, and the fundraiser closes at 2500.\<close>

definition funded :: chain where
  "funded = exec (Contribute alice 2000 1250000 True) demo"

definition closed :: chain where
  "closed = exec (Close fundraiser 2500) funded"

text \<open>The fundraiser then starts a second campaign.\<close>

definition second :: chain where
  "second = exec (Configure fundraiser 3000 ''Second'' 500 9000) closed"

text \<open>
  Another run: after the campaign is configured, 7 units are minted straight to the
  contract's address, and the fundraiser closes at block time 2000.
\<close>

definition donated :: chain where
  "donated = run deployed [Configure fundraiser 1000 ''Demo'' 2000000 4600, Mint vault 7]"

definition paidOut :: chain where
  "paidOut = exec (Close fundraiser 2000) donated"

section \<open>Properties\<close>

subsection \<open>What each step does to each part of the state\<close>

lemma FHE_asEuint64_simps [simp]:
  "fst (FHE_asEuint64 v s) = Handle (nextHandle s) v"
  "snd (FHE_asEuint64 v s) = s\<lparr>nextHandle := Suc (nextHandle s)\<rparr>"
  by (simp_all add: FHE_asEuint64_def)

lemma FHE_add_fields [simp]:
  "owner (snd (FHE_add a b s)) = owner s"
  "self (snd (FHE_add a b s)) = self s"
  "paymentToken (snd (FHE_add a b s)) = paymentToken s"
  "campaignId (snd (FHE_add a b s)) = campaignId s"
  "campaigns (snd (FHE_add a b s)) = campaigns s"
  "contributions (snd (FHE_add a b s)) = contributions s"
  "events (snd (FHE_add a b s)) = events s"
  "balances (snd (FHE_add a b s)) = balances s"
  "operators (snd (FHE_add a b s)) = operators s"
  "acl (snd (FHE_add a b s)) = acl s"
  by (simp_all add: FHE_add_def case_prod_beta)

lemma FHE_add_value [simp]:
  "decrypt (fst (FHE_add a b s)) = decrypt a + decrypt b"
  "fst (FHE_add a b s) \<noteq> Uninitialized"
  by (simp_all add: FHE_add_def case_prod_beta FHE_isInitialized_def)

lemma FHE_allow_fields [simp]:
  "owner (FHE_allow h a s) = owner s"
  "self (FHE_allow h a s) = self s"
  "paymentToken (FHE_allow h a s) = paymentToken s"
  "campaignId (FHE_allow h a s) = campaignId s"
  "campaigns (FHE_allow h a s) = campaigns s"
  "contributions (FHE_allow h a s) = contributions s"
  "events (FHE_allow h a s) = events s"
  "balances (FHE_allow h a s) = balances s"
  "operators (FHE_allow h a s) = operators s"
  "nextHandle (FHE_allow h a s) = nextHandle s"
  "acl (FHE_allow h a s) = acl s @ [(h, a)]"
  by (simp_all add: FHE_allow_def)

lemma FHE_allowThis_fields [simp]:
  "owner (FHE_allowThis h s) = owner s"
  "self (FHE_allowThis h s) = self s"
  "paymentToken (FHE_allowThis h s) = paymentToken s"
  "campaignId (FHE_allowThis h s) = campaignId s"
  "campaigns (FHE_allowThis h s) = campaigns s"
  "contributions (FHE_allowThis h s) = contributions s"
  "events (FHE_allowThis h s) = events s"
  "balances (FHE_allowThis h s) = balances s"
  "operators (FHE_allowThis h s) = operators s"
  "nextHandle (FHE_allowThis h s) = nextHandle s"
  "acl (FHE_allowThis h s) = acl s @ [(h, self s)]"
  by (simp_all add: FHE_allowThis_def)

lemma setCampaign_fields [simp]:
  "owner (setCampaign i f s) = owner s"
  "self (setCampaign i f s) = self s"
  "paymentToken (setCampaign i f s) = paymentToken s"
  "campaignId (setCampaign i f s) = campaignId s"
  "campaigns (setCampaign i f s) = (campaigns s)(i := f (campaigns s i))"
  "contributions (setCampaign i f s) = contributions s"
  "events (setCampaign i f s) = events s"
  "balances (setCampaign i f s) = balances s"
  "operators (setCampaign i f s) = operators s"
  "nextHandle (setCampaign i f s) = nextHandle s"
  "acl (setCampaign i f s) = acl s"
  by (simp_all add: setCampaign_def)

lemma setContribution_fields [simp]:
  "owner (setContribution i c h s) = owner s"
  "self (setContribution i c h s) = self s"
  "paymentToken (setContribution i c h s) = paymentToken s"
  "campaignId (setContribution i c h s) = campaignId s"
  "campaigns (setContribution i c h s) = campaigns s"
  "contributions (setContribution i c h s) = (contributions s)(i := (contributions s i)(c := h))"
  "events (setContribution i c h s) = events s"
  "balances (setContribution i c h s) = balances s"
  "operators (setContribution i c h s) = operators s"
  "nextHandle (setContribution i c h s) = nextHandle s"
  "acl (setContribution i c h s) = acl s"
  by (simp_all add: setContribution_def)

lemma emit_fields [simp]:
  "owner (emit e s) = owner s"
  "self (emit e s) = self s"
  "paymentToken (emit e s) = paymentToken s"
  "campaignId (emit e s) = campaignId s"
  "campaigns (emit e s) = campaigns s"
  "contributions (emit e s) = contributions s"
  "events (emit e s) = events s @ [e]"
  "balances (emit e s) = balances s"
  "operators (emit e s) = operators s"
  "nextHandle (emit e s) = nextHandle s"
  "acl (emit e s) = acl s"
  by (simp_all add: emit_def)

lemma token_move_fields [simp]:
  "owner (snd (token_move f t amt s)) = owner s"
  "self (snd (token_move f t amt s)) = self s"
  "paymentToken (snd (token_move f t amt s)) = paymentToken s"
  "campaignId (snd (token_move f t amt s)) = campaignId s"
  "campaigns (snd (token_move f t amt s)) = campaigns s"
  "contributions (snd (token_move f t amt s)) = contributions s"
  "events (snd (token_move f t amt s)) = events s"
  "operators (snd (token_move f t amt s)) = operators s"
  "acl (snd (token_move f t amt s)) = acl s"
  by (simp_all add: token_move_def case_prod_beta Let_def)

lemma token_move_value [simp]:
  "decrypt (fst (token_move f t amt s)) =
     (if decrypt amt \<le> decrypt (balances s f) then decrypt amt else 0)"
  "fst (token_move f t amt s) \<noteq> Uninitialized"
  by (simp_all add: token_move_def case_prod_beta Let_def)

lemma token_move_balances:
  "f \<noteq> t \<Longrightarrow> decrypt (balances (snd (token_move f t amt s)) t)
      = decrypt (balances s t) + decrypt (fst (token_move f t amt s))"
  "f \<noteq> t \<Longrightarrow> decrypt (balances (snd (token_move f t amt s)) f)
      = decrypt (balances s f) - decrypt (fst (token_move f t amt s))"
  "a \<noteq> f \<Longrightarrow> a \<noteq> t \<Longrightarrow> balances (snd (token_move f t amt s)) a = balances s a"
  "balances (snd (token_move f t amt s)) t \<noteq> Uninitialized"
  by (simp_all add: token_move_def case_prod_beta Let_def)

lemma mint_fields [simp]:
  "owner (mint t v s) = owner s"
  "self (mint t v s) = self s"
  "paymentToken (mint t v s) = paymentToken s"
  "campaignId (mint t v s) = campaignId s"
  "campaigns (mint t v s) = campaigns s"
  "contributions (mint t v s) = contributions s"
  "events (mint t v s) = events s"
  "operators (mint t v s) = operators s"
  "acl (mint t v s) = acl s"
  by (simp_all add: mint_def case_prod_beta Let_def)

lemma setOperator_fields [simp]:
  "owner (setOperator h sp u s) = owner s"
  "self (setOperator h sp u s) = self s"
  "paymentToken (setOperator h sp u s) = paymentToken s"
  "campaignId (setOperator h sp u s) = campaignId s"
  "campaigns (setOperator h sp u s) = campaigns s"
  "contributions (setOperator h sp u s) = contributions s"
  "events (setOperator h sp u s) = events s"
  "balances (setOperator h sp u s) = balances s"
  "nextHandle (setOperator h sp u s) = nextHandle s"
  "acl (setOperator h sp u s) = acl s"
  by (simp_all add: setOperator_def)

lemma contribute_Inr_full:
  assumes "contribute a now x p s = Inr (r, s')"
  shows "\<exists>tr total.
     campaignId s \<noteq> 0 \<and> \<not> finalized (campaigns s (campaignId s))
     \<and> now < unat (endTimestamp (campaigns s (campaignId s)))
     \<and> p \<and> isOperator a (self s) now s
     \<and> r \<noteq> Uninitialized \<and> total \<noteq> Uninitialized
     \<and> decrypt r = decrypt (contributions s (campaignId s) a) + decrypt tr
     \<and> decrypt total = decrypt (totalRaised (campaigns s (campaignId s))) + decrypt tr
     \<and> decrypt tr = (if x \<le> decrypt (balances s a) then x else 0)
     \<and> (a \<noteq> self s \<longrightarrow>
           decrypt (balances s' (self s)) = decrypt (balances s (self s)) + decrypt tr)
     \<and> owner s' = owner s \<and> self s' = self s \<and> paymentToken s' = paymentToken s
     \<and> campaignId s' = campaignId s \<and> operators s' = operators s
     \<and> campaigns s' = (campaigns s)(campaignId s := (campaigns s (campaignId s))
            \<lparr>totalRaised := total\<rparr>)
     \<and> contributions s' = (contributions s)(campaignId s := (contributions s (campaignId s))(a := r))
     \<and> events s' = events s @ [ContributionReceived (campaignId s) a tr]
     \<and> acl s' = acl s @ [(Handle (nextHandle s) x, self s), (Handle (nextHandle s) x, paymentToken s),
                          (r, self s), (r, a), (total, self s), (total, owner s)]"
proof -
  define s3 where "s3 = FHE_allow (Handle (nextHandle s) x) (paymentToken s)
        (FHE_allow (Handle (nextHandle s) x) (self s) (s\<lparr>nextHandle := Suc (nextHandle s)\<rparr>))"
  define tr where "tr = fst (token_move a (self s) (Handle (nextHandle s) x) s3)"
  define s4 where "s4 = snd (token_move a (self s) (Handle (nextHandle s) x) s3)"
  from assms have g: "campaignId s \<noteq> 0" "\<not> finalized (campaigns s (campaignId s))"
      "now < unat (endTimestamp (campaigns s (campaignId s)))" "p" "isOperator a (self s) now s"
    by (auto simp: contribute_def FHE_fromExternal_def confidentialTransferFrom_def
         isOperator_def case_prod_beta Let_def split: if_splits)
  from assms g have "isOperator a (self s) now s3"
    by (simp add: isOperator_def s3_def)
  with assms g have rs: "r = fst (FHE_add (contributions s (campaignId s) a) tr s4)"
     "s' = emit (ContributionReceived (campaignId s) a tr)
        (FHE_allow (fst (FHE_add (totalRaised (campaigns s (campaignId s))) tr
             (setContribution (campaignId s) a (fst (FHE_add (contributions s (campaignId s) a) tr s4))
                (snd (FHE_add (contributions s (campaignId s) a) tr s4))))) (owner s)
         (FHE_allowThis (fst (FHE_add (totalRaised (campaigns s (campaignId s))) tr
             (setContribution (campaignId s) a (fst (FHE_add (contributions s (campaignId s) a) tr s4))
                (snd (FHE_add (contributions s (campaignId s) a) tr s4)))))
          (FHE_allow (fst (FHE_add (contributions s (campaignId s) a) tr s4)) a
           (FHE_allowThis (fst (FHE_add (contributions s (campaignId s) a) tr s4))
            (setCampaign (campaignId s) (\<lambda>c. c\<lparr>totalRaised := fst (FHE_add (totalRaised (campaigns s (campaignId s))) tr
             (setContribution (campaignId s) a (fst (FHE_add (contributions s (campaignId s) a) tr s4))
                (snd (FHE_add (contributions s (campaignId s) a) tr s4))))\<rparr>)
             (snd (FHE_add (totalRaised (campaigns s (campaignId s))) tr
             (setContribution (campaignId s) a (fst (FHE_add (contributions s (campaignId s) a) tr s4))
                (snd (FHE_add (contributions s (campaignId s) a) tr s4))))))))))"
    by (auto simp: contribute_def FHE_fromExternal_def confidentialTransferFrom_def
          case_prod_beta Let_def s3_def tr_def s4_def)
  show ?thesis
    unfolding rs
    by (rule exI[of _ tr], rule exI[of _ "fst (FHE_add (totalRaised (campaigns s (campaignId s))) tr
             (setContribution (campaignId s) a (fst (FHE_add (contributions s (campaignId s) a) tr s4))
                (snd (FHE_add (contributions s (campaignId s) a) tr s4))))"])
       (simp add: g s4_def s3_def tr_def token_move_balances)
qed

lemma contribute_Inr:
  assumes "contribute a now x p s = Inr (r, s')"
  shows "\<exists>tr total.
     campaignId s \<noteq> 0 \<and> \<not> finalized (campaigns s (campaignId s))
     \<and> now < unat (endTimestamp (campaigns s (campaignId s)))
     \<and> p \<and> isOperator a (self s) now s
     \<and> r \<noteq> Uninitialized \<and> total \<noteq> Uninitialized
     \<and> decrypt r = decrypt (contributions s (campaignId s) a) + decrypt tr
     \<and> decrypt total = decrypt (totalRaised (campaigns s (campaignId s))) + decrypt tr
     \<and> decrypt tr = (if x \<le> decrypt (balances s a) then x else 0)
     \<and> owner s' = owner s \<and> self s' = self s \<and> paymentToken s' = paymentToken s
     \<and> campaignId s' = campaignId s \<and> operators s' = operators s
     \<and> campaigns s' = (campaigns s)(campaignId s := (campaigns s (campaignId s))
            \<lparr>totalRaised := total\<rparr>)
     \<and> contributions s' = (contributions s)(campaignId s := (contributions s (campaignId s))(a := r))
     \<and> events s' = events s @ [ContributionReceived (campaignId s) a tr]
     \<and> acl s' = acl s @ [(Handle (nextHandle s) x, self s), (Handle (nextHandle s) x, paymentToken s),
                          (r, self s), (r, a), (total, self s), (total, owner s)]"
  using contribute_Inr_full[OF assms] by blast

lemma configureCampaign_Inr:
  assumes "configureCampaign a now nm tg e s = Inr s'"
  shows "a = owner s \<and> now < unat e
     \<and> owner s' = owner s \<and> self s' = self s \<and> paymentToken s' = paymentToken s
     \<and> contributions s' = contributions s \<and> balances s' = balances s
     \<and> operators s' = operators s \<and> acl s' = acl s
     \<and> events s' = events s @ [CampaignConfigured (campaignId s') nm tg e]
     \<and> (if campaignId s = 0 \<or> finalized (campaigns s (campaignId s))
         then campaignId s' = campaignId s + 1 \<and> campaignId s \<noteq> maxUint256
           \<and> campaigns s' = (campaigns s)(campaignId s + 1 :=
                \<lparr>name = nm, targetAmount = tg, endTimestamp = e, finalized = False,
                 totalRaised = Handle (nextHandle s) 0\<rparr>)
         else campaignId s' = campaignId s
           \<and> campaigns s' = (campaigns s)(campaignId s :=
                \<lparr>name = nm, targetAmount = tg, endTimestamp = e, finalized = False,
                 totalRaised = (if totalRaised (campaigns s (campaignId s)) = Uninitialized
                                then Handle (nextHandle s) 0
                                else totalRaised (campaigns s (campaignId s)))\<rparr>))"
  using assms
  by (auto simp: configureCampaign_def Let_def case_prod_beta FHE_isInitialized_def maxUint256_def
        split: if_splits)

lemma closeCampaign_Inl:
  "closeCampaign a now s = Inl err \<longleftrightarrow>
     (if a \<noteq> owner s then err = OwnableUnauthorizedAccount a
      else if campaignId s = 0 then err = CampaignNotConfigured
      else finalized (campaigns s (campaignId s)) \<and> err = CampaignAlreadyFinalized)"
  by (auto simp: closeCampaign_def Let_def case_prod_beta)

lemma closeCampaign_Inr:
  assumes "closeCampaign a now s = Inr (r, s')"
  shows "a = owner s \<and> campaignId s \<noteq> 0 \<and> \<not> finalized (campaigns s (campaignId s))
     \<and> owner s' = owner s \<and> self s' = self s \<and> paymentToken s' = paymentToken s
     \<and> campaignId s' = campaignId s \<and> contributions s' = contributions s
     \<and> operators s' = operators s
     \<and> campaigns s' = (campaigns s)(campaignId s := (campaigns s (campaignId s))\<lparr>finalized := True\<rparr>)
     \<and> events s' = events s @ [CampaignClosed (campaignId s) (owner s) r (word_of_nat now)]
     \<and> r \<noteq> Uninitialized
     \<and> (if balances s (self s) = Uninitialized
         then r = Handle (nextHandle s) 0 \<and> balances s' = balances s
              \<and> acl s' = acl s @ [(r, self s), (r, owner s)]
         else decrypt r = decrypt (balances s (self s)) \<and> acl s' = acl s
              \<and> (owner s \<noteq> self s \<longrightarrow>
                    decrypt (balances s' (owner s))
                      = decrypt (balances s (owner s)) + decrypt (balances s (self s))
                  \<and> decrypt (balances s' (self s)) = 0
                  \<and> (\<forall>b. b \<noteq> owner s \<and> b \<noteq> self s \<longrightarrow> balances s' b = balances s b)))"
  using assms
  by (auto simp: closeCampaign_def Let_def case_prod_beta FHE_isInitialized_def
        confidentialBalanceOf_def confidentialTransfer_def token_move_balances
        split: if_splits)

lemma contribute_Inl:
  "contribute a now x p s = Inl err \<longleftrightarrow>
     (if campaignId s = 0 then err = CampaignNotConfigured
      else if finalized (campaigns s (campaignId s)) then err = CampaignAlreadyFinalized
      else if unat (endTimestamp (campaigns s (campaignId s))) \<le> now then err = CampaignEnded
      else if \<not> p then err = InvalidInputProof
      else \<not> isOperator a (self s) now s \<and> err = UnauthorizedSpender a (self s))"
  by (auto simp: contribute_def FHE_fromExternal_def confidentialTransferFrom_def
       case_prod_beta Let_def isOperator_def)

lemma configureCampaign_Inl:
  "configureCampaign a now nm tg e s = Inl err \<longleftrightarrow>
     (if a \<noteq> owner s then err = OwnableUnauthorizedAccount a
      else if unat e \<le> now then err = InvalidEndTimestamp
      else (campaignId s = 0 \<or> finalized (campaigns s (campaignId s)))
           \<and> campaignId s = maxUint256 \<and> err = ArithmeticOverflow)"
  by (auto simp: configureCampaign_def Let_def)

lemma closeCampaign_fails_iff:
  "(\<exists>err. closeCampaign a now s = Inl err) \<longleftrightarrow>
       a \<noteq> owner s \<or> campaignId s = 0 \<or> finalized (campaigns s (campaignId s))"
proof
  assume "\<exists>err. closeCampaign a now s = Inl err"
  then obtain err where "closeCampaign a now s = Inl err" ..
  then show "a \<noteq> owner s \<or> campaignId s = 0 \<or> finalized (campaigns s (campaignId s))"
    unfolding closeCampaign_Inl by (simp split: if_splits)
next
  assume c: "a \<noteq> owner s \<or> campaignId s = 0 \<or> finalized (campaigns s (campaignId s))"
  have "closeCampaign a now s
      = Inl (if a \<noteq> owner s then OwnableUnauthorizedAccount a
             else if campaignId s = 0 then CampaignNotConfigured
             else CampaignAlreadyFinalized)"
    unfolding closeCampaign_Inl using c by auto
  then show "\<exists>err. closeCampaign a now s = Inl err" ..
qed

lemma contribute_fails_iff:
  "(\<exists>err. contribute a now x p s = Inl err) \<longleftrightarrow>
     campaignId s = 0 \<or> finalized (campaigns s (campaignId s))
     \<or> unat (endTimestamp (campaigns s (campaignId s))) \<le> now
     \<or> \<not> p \<or> \<not> isOperator a (self s) now s"
proof
  assume "\<exists>err. contribute a now x p s = Inl err"
  then obtain err where "contribute a now x p s = Inl err" ..
  then show "campaignId s = 0 \<or> finalized (campaigns s (campaignId s))
     \<or> unat (endTimestamp (campaigns s (campaignId s))) \<le> now
     \<or> \<not> p \<or> \<not> isOperator a (self s) now s"
    unfolding contribute_Inl by (simp split: if_splits)
next
  assume c: "campaignId s = 0 \<or> finalized (campaigns s (campaignId s))
     \<or> unat (endTimestamp (campaigns s (campaignId s))) \<le> now
     \<or> \<not> p \<or> \<not> isOperator a (self s) now s"
  have "contribute a now x p s
      = Inl (if campaignId s = 0 then CampaignNotConfigured
             else if finalized (campaigns s (campaignId s)) then CampaignAlreadyFinalized
             else if unat (endTimestamp (campaigns s (campaignId s))) \<le> now then CampaignEnded
             else if \<not> p then InvalidInputProof
             else UnauthorizedSpender a (self s))"
    unfolding contribute_Inl using c by auto
  then show "\<exists>err. contribute a now x p s = Inl err" ..
qed

lemma contribute_succeeds:
  assumes "campaignId s \<noteq> 0" "\<not> finalized (campaigns s (campaignId s))"
    "now < unat (endTimestamp (campaigns s (campaignId s)))" "p" "isOperator b (self s) now s"
  shows "\<exists>r s' tr. contribute b now x p s = Inr (r, s')
     \<and> events s' = events s @ [ContributionReceived (campaignId s) b tr]
     \<and> decrypt (totalRaised (campaigns s' (campaignId s)))
          = decrypt (totalRaised (campaigns s (campaignId s))) + decrypt tr
     \<and> decrypt (contributions s' (campaignId s) b)
          = decrypt (contributions s (campaignId s) b) + decrypt tr"
proof -
  have "\<forall>err. contribute b now x p s \<noteq> Inl err"
    using assms by (simp add: contribute_Inl)
  then obtain r s' where rs: "contribute b now x p s = Inr (r, s')"
    by (cases "contribute b now x p s") auto
  from contribute_Inr[OF rs] rs show ?thesis
    by auto
qed

lemma configure_in_place:
  assumes "totalsInitialized s" "a = owner s" "now < unat e" "campaignId s \<noteq> 0"
    "\<not> finalized (campaigns s (campaignId s))"
  shows "\<exists>s'. configureCampaign a now nm tg e s = Inr s'
          \<and> campaignId s' = campaignId s
          \<and> campaigns s' = (campaigns s)(campaignId s :=
               (campaigns s (campaignId s))\<lparr>name := nm, targetAmount := tg, endTimestamp := e\<rparr>)
          \<and> contributions s' = contributions s"
proof -
  have "\<forall>err. configureCampaign a now nm tg e s \<noteq> Inl err"
    using assms by (simp add: configureCampaign_Inl)
  then obtain s' where s': "configureCampaign a now nm tg e s = Inr s'"
    by (cases "configureCampaign a now nm tg e s") auto
  have i: "totalRaised (campaigns s (campaignId s)) \<noteq> Uninitialized"
    using assms(1,4) by (simp add: totalsInitialized_def)
  have "\<lparr>name = nm, targetAmount = tg, endTimestamp = e, finalized = False,
          totalRaised = totalRaised (campaigns s (campaignId s))\<rparr>
        = (campaigns s (campaignId s))\<lparr>name := nm, targetAmount := tg, endTimestamp := e\<rparr>"
    using assms(5) by (cases "campaigns s (campaignId s)") simp
  with configureCampaign_Inr[OF s'] assms i s' show ?thesis
    by simp
qed

subsection \<open>Runs\<close>

lemma run_Nil: "run s [] = s"
  by (simp add: run_def)

lemma run_snoc: "run s (cs @ [c]) = exec c (run s cs)"
  by (simp add: run_def)

subsection \<open>Invariants of runs\<close>

lemma exec_cases [case_names Reverted Configured Contributed Closed Minted OperatorSet]:
  obtains
    (Reverted) "exec c s = s"
  | (Configured) a now nm tg e where "c = Configure a now nm tg e"
      "configureCampaign a now nm tg e s = Inr (exec c s)"
  | (Contributed) a now x p r where "c = Contribute a now x p"
      "contribute a now x p s = Inr (r, exec c s)"
  | (Closed) a now r where "c = Close a now" "closeCampaign a now s = Inr (r, exec c s)"
  | (Minted) to v where "c = Mint to v" "exec c s = mint to v s"
  | (OperatorSet) h sp u where "c = SetOperator h sp u" "exec c s = setOperator h sp u s"
proof (cases c)
  case (Configure a now nm tg e)
  then show ?thesis using Reverted Configured
    by (cases "configureCampaign a now nm tg e s") auto
next
  case (Contribute a now x p)
  then show ?thesis using Reverted Contributed
    by (cases "contribute a now x p s") auto
next
  case (Close a now)
  then show ?thesis using Reverted Closed
    by (cases "closeCampaign a now s") auto
next
  case (Mint to v)
  then show ?thesis using Minted by simp
next
  case (SetOperator h sp u)
  then show ?thesis using OperatorSet by simp
qed

lemma exec_fixed:
  "owner (exec c s) = owner s" "self (exec c s) = self s" "paymentToken (exec c s) = paymentToken s"
proof -
  show "owner (exec c s) = owner s"
    by (cases c s rule: exec_cases)
       (auto dest: configureCampaign_Inr contribute_Inr closeCampaign_Inr)
  show "self (exec c s) = self s"
    by (cases c s rule: exec_cases)
       (auto dest: configureCampaign_Inr contribute_Inr closeCampaign_Inr)
  show "paymentToken (exec c s) = paymentToken s"
    by (cases c s rule: exec_cases)
       (auto dest: configureCampaign_Inr contribute_Inr closeCampaign_Inr)
qed

lemma run_fixed [simp]:
  "owner (run s cs) = owner s" "self (run s cs) = self s" "paymentToken (run s cs) = paymentToken s"
  by (induction cs rule: rev_induct) (simp_all add: run_Nil run_snoc exec_fixed)

lemma untouchedAbove_exec: "untouchedAbove s \<Longrightarrow> untouchedAbove (exec c s)"
proof (cases c s rule: exec_cases)
  case Reverted
  then show "untouchedAbove s \<Longrightarrow> untouchedAbove (exec c s)" by simp
next
  case (Configured a now nm tg e)
  assume u: "untouchedAbove s"
  from configureCampaign_Inr[OF Configured(2)] u show "untouchedAbove (exec c s)"
    by (auto simp: untouchedAbove_def split: if_splits)
next
  case (Contributed a now x p r)
  assume u: "untouchedAbove s"
  from contribute_Inr[OF Contributed(2)] u show "untouchedAbove (exec c s)"
    by (auto simp: untouchedAbove_def)
next
  case (Closed a now r)
  assume u: "untouchedAbove s"
  from closeCampaign_Inr[OF Closed(2)] u show "untouchedAbove (exec c s)"
    by (auto simp: untouchedAbove_def)
next
  case (Minted to v)
  assume u: "untouchedAbove s"
  with Minted show "untouchedAbove (exec c s)" by (simp add: untouchedAbove_def)
next
  case (OperatorSet h sp u)
  assume u: "untouchedAbove s"
  with OperatorSet show "untouchedAbove (exec c s)" by (simp add: untouchedAbove_def)
qed

lemma untouchedAbove_run: "untouchedAbove (run (deploy d v t) cs)"
  by (induction cs rule: rev_induct)
     (simp_all add: run_Nil run_snoc untouchedAbove_exec, simp add: untouchedAbove_def deploy_def)

lemma log_snoc [simp]:
  "contributedBy i c (evs @ [e]) = contributedBy i c evs + received i c e"
  "raisedIn i (evs @ [e]) = raisedIn i evs + receivedIn i e"
  "hasContributed i c (evs @ [e]) = (hasContributed i c evs \<or> isContribution i c e)"
  by (auto simp: contributedBy_def raisedIn_def hasContributed_def list_ex_iff)

lemma log_Nil [simp]:
  "contributedBy i c [] = 0" "raisedIn i [] = 0" "hasContributed i c [] = False"
  by (simp_all add: contributedBy_def raisedIn_def hasContributed_def)

lemma totalsInitialized_exec:
  assumes "totalsInitialized s"
  shows "totalsInitialized (exec c s)"
proof (cases c s rule: exec_cases)
  case Reverted
  then show ?thesis using assms by simp
next
  case (Configured a now nm tg e)
  from configureCampaign_Inr[OF Configured(2)] assms show ?thesis
    by (auto simp: totalsInitialized_def split: if_splits)
next
  case (Contributed a now x p r)
  from contribute_Inr[OF Contributed(2)] assms show ?thesis
    by (auto simp: totalsInitialized_def split: if_splits)
next
  case (Closed a now r)
  from closeCampaign_Inr[OF Closed(2)] assms show ?thesis
    by (auto simp: totalsInitialized_def)
next
  case (Minted to v)
  with assms show ?thesis by (simp add: totalsInitialized_def)
next
  case (OperatorSet h sp u)
  with assms show ?thesis by (simp add: totalsInitialized_def)
qed

lemma pastFinalized_exec:
  assumes "pastFinalized s"
  shows "pastFinalized (exec c s)"
proof (cases c s rule: exec_cases)
  case Reverted
  then show ?thesis using assms by simp
next
  case (Configured a now nm tg e)
  from configureCampaign_Inr[OF Configured(2)] assms show ?thesis
    by (auto simp: pastFinalized_def less_Suc_eq split: if_splits)
next
  case (Contributed a now x p r)
  from contribute_Inr[OF Contributed(2)] assms show ?thesis
    by (auto simp: pastFinalized_def)
next
  case (Closed a now r)
  from closeCampaign_Inr[OF Closed(2)] assms show ?thesis
    by (auto simp: pastFinalized_def)
next
  case (Minted to v)
  with assms show ?thesis by (simp add: pastFinalized_def)
next
  case (OperatorSet h sp u)
  with assms show ?thesis by (simp add: pastFinalized_def)
qed


lemma entriesMatchLog_exec:
  assumes "entriesMatchLog s"
  shows "entriesMatchLog (exec c s)"
proof -
  have c0: "(contributions s i a \<noteq> Uninitialized) = hasContributed i a (events s)" for i a
    using assms by (simp add: entriesMatchLog_def)
  show ?thesis
  proof (cases c s rule: exec_cases)
    case Reverted
    then show ?thesis using assms by simp
  next
    case (Configured a now nm tg e)
    from configureCampaign_Inr[OF Configured(2)] c0 show ?thesis
      by (simp add: entriesMatchLog_def)
  next
    case (Contributed a now x p r)
    from contribute_Inr[OF Contributed(2)] obtain tr where
      f: "r \<noteq> Uninitialized"
         "contributions (exec c s) = (contributions s)(campaignId s := (contributions s (campaignId s))(a := r))"
         "events (exec c s) = events s @ [ContributionReceived (campaignId s) a tr]"
      by blast
    show ?thesis
      unfolding entriesMatchLog_def
    proof (intro allI)
      fix i ca
      show "(contributions (exec c s) i ca \<noteq> Uninitialized) = hasContributed i ca (events (exec c s))"
        using f c0[of i ca] by auto
    qed
  next
    case (Closed a now r)
    from closeCampaign_Inr[OF Closed(2)] c0 show ?thesis
      by (simp add: entriesMatchLog_def)
  next
    case (Minted to v)
    with assms show ?thesis by (simp add: entriesMatchLog_def)
  next
    case (OperatorSet h sp u)
    with assms show ?thesis by (simp add: entriesMatchLog_def)
  qed
qed

lemma totalsInitialized_run: "totalsInitialized (run (deploy d v t) cs)"
  by (induction cs rule: rev_induct)
     (simp_all add: run_Nil run_snoc totalsInitialized_exec, simp add: totalsInitialized_def deploy_def)

lemma pastFinalized_run: "pastFinalized (run (deploy d v t) cs)"
  by (induction cs rule: rev_induct)
     (simp_all add: run_Nil run_snoc pastFinalized_exec, simp add: pastFinalized_def deploy_def)


lemma entriesMatchLog_run: "entriesMatchLog (run (deploy d v t) cs)"
  by (induction cs rule: rev_induct)
     (simp_all add: run_Nil run_snoc entriesMatchLog_exec, simp add: entriesMatchLog_def deploy_def)



lemma run_append: "run s (xs @ ys) = run (run s xs) ys"
  by (simp add: run_def)

lemma campaignId_exec: "campaignId s \<le> campaignId (exec c s)"
  by (cases c s rule: exec_cases)
     (auto dest: configureCampaign_Inr contribute_Inr closeCampaign_Inr split: if_splits)

lemma past_exec:
  assumes "i < campaignId s"
  shows "campaigns (exec c s) i = campaigns s i \<and> contributions (exec c s) i = contributions s i"
proof (cases c s rule: exec_cases)
  case Reverted
  then show ?thesis by simp
next
  case (Configured a now nm tg e)
  from configureCampaign_Inr[OF Configured(2)] assms show ?thesis
    by (auto split: if_splits)
next
  case (Contributed a now x p r)
  from contribute_Inr[OF Contributed(2)] assms show ?thesis
    by auto
next
  case (Closed a now r)
  from closeCampaign_Inr[OF Closed(2)] assms show ?thesis
    by auto
next
  case (Minted to v)
  then show ?thesis by simp
next
  case (OperatorSet h sp u)
  then show ?thesis by simp
qed

lemma frozen_exec:
  assumes "finalized (campaigns s i)" "i \<le> campaignId s"
  shows "campaigns (exec c s) i = campaigns s i \<and> contributions (exec c s) i = contributions s i"
proof (cases "i < campaignId s")
  case True
  then show ?thesis by (rule past_exec)
next
  case False
  with assms have i: "i = campaignId s" by simp
  show ?thesis
  proof (cases c s rule: exec_cases)
    case Reverted
    then show ?thesis by simp
  next
    case (Configured a now nm tg e)
    from configureCampaign_Inr[OF Configured(2)] assms i show ?thesis
      by (auto split: if_splits)
  next
    case (Contributed a now x p r)
    from contribute_Inr[OF Contributed(2)] assms i show ?thesis
      by auto
  next
    case (Closed a now r)
    from closeCampaign_Inr[OF Closed(2)] assms i show ?thesis
      by auto
  next
    case (Minted to v)
    then show ?thesis by simp
  next
    case (OperatorSet h sp u)
    then show ?thesis by simp
  qed
qed

lemma frozen_run:
  assumes "finalized (campaigns s i)" "i \<le> campaignId s"
  shows "campaigns (run s cs) i = campaigns s i \<and> contributions (run s cs) i = contributions s i
     \<and> i \<le> campaignId (run s cs)"
proof (induction cs rule: rev_induct)
  case Nil
  then show ?case using assms by (simp add: run_Nil)
next
  case (snoc c cs)
  then have f: "finalized (campaigns (run s cs) i)" "i \<le> campaignId (run s cs)"
    using assms by simp_all
  from frozen_exec[OF f, of c] snoc campaignId_exec[of "run s cs" c] show ?case
    by (simp add: run_snoc)
qed


lemma entry_exec:
  "contributions (exec c s) i b = contributions s i b
   \<or> (\<exists>tr. events (exec c s) = events s @ [ContributionReceived i b tr] \<and> i = campaignId s
          \<and> contributions (exec c s) i b \<noteq> Uninitialized
          \<and> decrypt (contributions (exec c s) i b) = decrypt (contributions s i b) + decrypt tr)"
proof (cases c s rule: exec_cases)
  case Reverted
  then show ?thesis by simp
next
  case (Configured a now nm tg e)
  from configureCampaign_Inr[OF Configured(2)] show ?thesis
    by simp
next
  case (Contributed a now x p r)
  from contribute_Inr[OF Contributed(2)] show ?thesis
    by auto
next
  case (Closed a now r)
  from closeCampaign_Inr[OF Closed(2)] show ?thesis
    by simp
next
  case (Minted to v)
  then show ?thesis by simp
next
  case (OperatorSet h sp u)
  then show ?thesis by simp
qed

lemma total_exec:
  assumes "totalsInitialized s" "untouchedAbove s"
  shows "totalRaised (campaigns (exec c s) i) = totalRaised (campaigns s i)
   \<or> (\<exists>b tr. events (exec c s) = events s @ [ContributionReceived i b tr] \<and> i = campaignId s
          \<and> totalRaised (campaigns (exec c s) i) \<noteq> Uninitialized
          \<and> decrypt (totalRaised (campaigns (exec c s) i))
               = decrypt (totalRaised (campaigns s i)) + decrypt tr)
   \<or> (i = campaignId s + 1 \<and> campaignId (exec c s) = i
          \<and> totalRaised (campaigns s i) = Uninitialized
          \<and> totalRaised (campaigns (exec c s) i) \<noteq> Uninitialized
          \<and> decrypt (totalRaised (campaigns (exec c s) i)) = 0)"
proof (cases c s rule: exec_cases)
  case Reverted
  then show ?thesis by simp
next
  case (Configured a now nm tg e)
  have u: "totalRaised (campaigns s (Suc (campaignId s))) = Uninitialized"
    using assms(2) by (simp add: untouchedAbove_def noCampaign_def)
  have t: "campaignId s \<noteq> 0 \<Longrightarrow> totalRaised (campaigns s (campaignId s)) \<noteq> Uninitialized"
    using assms(1) by (simp add: totalsInitialized_def)
  from configureCampaign_Inr[OF Configured(2)] u t show ?thesis
    by (auto split: if_splits)
next
  case (Contributed a now x p r)
  from contribute_Inr[OF Contributed(2)] show ?thesis
    by auto
next
  case (Closed a now r)
  from closeCampaign_Inr[OF Closed(2)] show ?thesis
    by auto
next
  case (Minted to v)
  then show ?thesis by simp
next
  case (OperatorSet h sp u)
  then show ?thesis by simp
qed

lemma mint_balances: "b \<noteq> to \<Longrightarrow> balances (mint to m s) b = balances s b"
  by (simp add: mint_def case_prod_beta Let_def)

lemma balanceIsTotal_exec:
  assumes "balanceIsTotal s" "owner s \<noteq> self s" "viaContribute (self s) c"
  shows "balanceIsTotal (exec c s)"
proof (cases c s rule: exec_cases)
  case Reverted
  then show ?thesis using assms by simp
next
  case (Configured a now nm tg e)
  from configureCampaign_Inr[OF Configured(2)] assms(1) show ?thesis
    by (auto simp: balanceIsTotal_def split: if_splits)
next
  case (Contributed a now x p r)
  with assms(3) have "a \<noteq> self s" by simp
  with contribute_Inr_full[OF Contributed(2)] assms(1) show ?thesis
    by (auto simp: balanceIsTotal_def)
next
  case (Closed a now r)
  from closeCampaign_Inr[OF Closed(2)] assms(1,2) show ?thesis
    by (auto simp: balanceIsTotal_def split: if_splits)
next
  case (Minted to m)
  with assms show ?thesis by (simp add: balanceIsTotal_def mint_balances)
next
  case (OperatorSet h sp u)
  with assms show ?thesis by (simp add: balanceIsTotal_def)
qed

lemma balanceIsTotal_run:
  assumes "d \<noteq> v" "list_all (viaContribute v) cs"
  shows "balanceIsTotal (run (deploy d v t) cs)"
  using assms(2)
proof (induction cs rule: rev_induct)
  case Nil
  then show ?case by (simp add: run_Nil balanceIsTotal_def deploy_def)
next
  case (snoc c cs)
  then have ih: "balanceIsTotal (run (deploy d v t) cs)" and c: "viaContribute v c"
    by simp_all
  have f: "owner (run (deploy d v t) cs) = d" "self (run (deploy d v t) cs) = v"
    by (simp_all add: deploy_def)
  from balanceIsTotal_exec[OF ih] f assms(1) c show ?case
    by (simp add: run_snoc)
qed






subsection \<open>The concrete deployment, evaluated\<close>

lemmas parties = fundraiser_def vault_def cusdt_def alice_def bob_def

lemmas ledger_defs = run_def deployed_def deploy_def configureCampaign_def contribute_def closeCampaign_def
  mint_def setOperator_def FHE_asEuint64_def FHE_add_def FHE_isInitialized_def FHE_allow_def
  FHE_allowThis_def FHE_fromExternal_def confidentialTransferFrom_def confidentialTransfer_def
  confidentialBalanceOf_def token_move_def isOperator_def setCampaign_def setContribution_def
  emit_def maxUint256_def noCampaign_def Let_def

lemma deployed_fields:
  "owner deployed = fundraiser" "self deployed = vault" "paymentToken deployed = cusdt"
  "campaignId deployed = 0" "events deployed = []" "acl deployed = []"
  "balances deployed = (\<lambda>_. Uninitialized)"
  by (simp_all add: deployed_def deploy_def)

lemma demo_fields:
  "owner demo = fundraiser" "self demo = vault" "paymentToken demo = cusdt"
  "campaignId demo = Suc 0"
  "campaigns demo (Suc 0) = \<lparr>name = ''Demo'', targetAmount = 2000000, endTimestamp = 4600,
       finalized = False, totalRaised = Handle 1 0\<rparr>"
  "contributions demo (Suc 0) alice = Uninitialized"
  "balances demo alice = Handle 4 5000000"
  "balances demo vault = Uninitialized"
  "balances demo fundraiser = Uninitialized"
  "operators demo alice vault = 4600"
  "events demo = [CampaignConfigured (Suc 0) ''Demo'' 2000000 4600]"
  "acl demo = []"
  "nextHandle demo = 5"
  by (simp_all add: demo_def ledger_defs parties)

lemma funded_fields:
  "owner funded = fundraiser" "self funded = vault" "paymentToken funded = cusdt"
  "campaignId funded = Suc 0"
  "campaigns funded (Suc 0) = \<lparr>name = ''Demo'', targetAmount = 2000000, endTimestamp = 4600,
       finalized = False, totalRaised = Handle 12 1250000\<rparr>"
  "contributions funded (Suc 0) alice = Handle 11 1250000"
  "balances funded alice = Handle 6 3750000"
  "balances funded vault = Handle 9 1250000"
  "balances funded fundraiser = Uninitialized"
  "events funded = [CampaignConfigured (Suc 0) ''Demo'' 2000000 4600,
      ContributionReceived (Suc 0) alice (Handle 7 1250000)]"
  "acl funded = [(Handle 5 1250000, vault), (Handle 5 1250000, cusdt), (Handle 11 1250000, vault),
     (Handle 11 1250000, alice), (Handle 12 1250000, vault), (Handle 12 1250000, fundraiser)]"
  by (simp_all add: funded_def demo_def ledger_defs parties)

lemma closed_fields:
  "owner closed = fundraiser" "self closed = vault" "paymentToken closed = cusdt"
  "campaignId closed = Suc 0"
  "campaigns closed (Suc 0) = \<lparr>name = ''Demo'', targetAmount = 2000000, endTimestamp = 4600,
       finalized = True, totalRaised = Handle 12 1250000\<rparr>"
  "contributions closed (Suc 0) alice = Handle 11 1250000"
  "balances closed vault = Handle 13 0"
  "balances closed fundraiser = Handle 16 1250000"
  by (simp_all add: closed_def funded_def demo_def ledger_defs parties)

lemma second_fields:
  "owner second = fundraiser" "self second = vault" "paymentToken second = cusdt"
  "campaignId second = 2"
  "campaigns second (Suc 0) = \<lparr>name = ''Demo'', targetAmount = 2000000, endTimestamp = 4600,
       finalized = True, totalRaised = Handle 12 1250000\<rparr>"
  "campaigns second 2 = \<lparr>name = ''Second'', targetAmount = 500, endTimestamp = 9000,
       finalized = False, totalRaised = Handle 17 0\<rparr>"
  "contributions second (Suc 0) alice = Handle 11 1250000"
  "contributions second 2 alice = Uninitialized"
  by (simp_all add: second_def closed_def funded_def demo_def ledger_defs parties)

lemma second_run:
  "second = run (deploy fundraiser vault cusdt)
     [Configure fundraiser 1000 ''Demo'' 2000000 4600, Mint alice 5000000,
      SetOperator alice vault 4600, Contribute alice 2000 1250000 True,
      Close fundraiser 2500, Configure fundraiser 3000 ''Second'' 500 9000]"
  by (simp add: second_def closed_def funded_def demo_def deployed_def run_def)

lemma parties_distinct:
  "fundraiser \<noteq> vault" "fundraiser \<noteq> cusdt" "fundraiser \<noteq> alice" "fundraiser \<noteq> bob"
  "vault \<noteq> fundraiser" "vault \<noteq> cusdt" "vault \<noteq> alice" "vault \<noteq> bob"
  "cusdt \<noteq> fundraiser" "cusdt \<noteq> vault" "cusdt \<noteq> alice" "cusdt \<noteq> bob"
  "alice \<noteq> fundraiser" "alice \<noteq> vault" "alice \<noteq> cusdt" "alice \<noteq> bob"
  "bob \<noteq> fundraiser" "bob \<noteq> vault" "bob \<noteq> cusdt" "bob \<noteq> alice"
  by (simp_all add: parties)

lemma demo_run:
  "demo = run (deploy fundraiser vault cusdt)
     [Configure fundraiser 1000 ''Demo'' 2000000 4600, Mint alice 5000000,
      SetOperator alice vault 4600]"
  by (simp add: demo_def deployed_def)

lemma funded_run:
  "funded = run (deploy fundraiser vault cusdt)
     [Configure fundraiser 1000 ''Demo'' 2000000 4600, Mint alice 5000000,
      SetOperator alice vault 4600, Contribute alice 2000 1250000 True]"
  by (simp add: funded_def demo_def deployed_def run_def)


lemma funded_close:
  "closeCampaign fundraiser 2500 funded = Inr (Handle 14 1250000, closed)"
  by (simp add: closed_def funded_def demo_def ledger_defs parties)


lemma donated_fields:
  "owner donated = fundraiser" "self donated = vault"
  "campaignId donated = Suc 0"
  "campaigns donated (Suc 0) = \<lparr>name = ''Demo'', targetAmount = 2000000, endTimestamp = 4600,
       finalized = False, totalRaised = Handle 1 0\<rparr>"
  "balances donated fundraiser = Uninitialized"
  "decrypt (balances donated vault) = 7"
  "events donated = [CampaignConfigured (Suc 0) ''Demo'' 2000000 4600]"
  by (simp_all add: donated_def ledger_defs parties)

lemma paidOut_fields:
  "finalized (campaigns paidOut (Suc 0))"
  "decrypt (balances paidOut fundraiser) = 7"
  "decrypt (balances paidOut vault) = 0"
  by (simp_all add: paidOut_def donated_def ledger_defs parties)

subsection \<open>The amount parser\<close>

text \<open>
  On a string of digits, or digits, a dot and digits, the parser scales the whole part by
  \<open>10\<^sup>6\<close> and adds the fraction cut or padded to six digits.
\<close>

lemma digit_not_space: "isDigit c \<Longrightarrow> \<not> isWhiteSpace c"
  by (auto simp: isDigit_def isWhiteSpace_def)

lemma digit_not_dot: "list_all isDigit w \<Longrightarrow> 46 \<notin> set w"
  by (auto simp: list_all_iff isDigit_def)

lemma trim_id:
  assumes "cs \<noteq> []" "\<not> isWhiteSpace (hd cs)" "\<not> isWhiteSpace (last cs)"
  shows "trim cs = cs"
proof -
  from assms(1,2) have 1: "dropWhile isWhiteSpace cs = cs"
    by (cases cs) simp_all
  from assms(1,3) have 2: "dropWhile isWhiteSpace (rev cs) = rev cs"
    by (cases "rev cs") (simp_all add: last_rev[symmetric] hd_rev)
  show ?thesis by (simp add: trim_def 1 2)
qed

lemma split_none: "sep \<notin> set cs \<Longrightarrow> split sep cs = [cs]"
  by (induction cs) auto

lemma split_first:
  "sep \<notin> set w \<Longrightarrow> split sep (w @ sep # rest) = w # split sep rest"
  by (induction w) auto

lemma BigInt_append: "BigInt (w @ p) = BigInt w * 10 ^ length p + BigInt p"
proof -
  define h where "h = (\<lambda>n c. 10 * n + (int c - 48))"
  have hs: "h n c = 10 * n + (int c - 48)" for n c
    by (simp add: h_def)
  have "foldl h a (w @ p) = foldl h a w * 10 ^ length p + foldl h 0 p" for a
  proof (induction p rule: rev_induct)
    case Nil
    then show ?case by simp
  next
    case (snoc x xs)
    have 1: "foldl h a (w @ xs @ [x]) = 10 * foldl h a (w @ xs) + (int x - 48)"
      by (simp add: hs flip: append_assoc)
    have 2: "foldl h 0 (xs @ [x]) = 10 * foldl h 0 xs + (int x - 48)"
      by (simp add: hs)
    have 3: "length (xs @ [x]) = Suc (length xs)"
      by simp
    show ?case unfolding 1 2 3 snoc by (simp only: power_Suc algebra_simps)
  qed
  then show ?thesis by (simp add: BigInt_def h_def)
qed

lemma parseAmount_decimal:
  assumes "w \<noteq> []" "list_all isDigit w" "list_all isDigit f"
  shows "parseAmount (w @ 46 # f)
           = Some (BigInt w * 10 ^ 6 + BigInt (take 6 (f @ js ''000000'')))"
    and "parseAmount w = Some (BigInt w * 10 ^ 6)"
proof -
  have hd: "\<not> isWhiteSpace (hd w)"
    using assms(1,2) by (cases w) (simp_all add: digit_not_space)
  have lw: "\<not> isWhiteSpace (last w)"
    using assms(1,2) by (simp add: list_all_iff digit_not_space)
  have dot: "\<not> isWhiteSpace 46"
    by (simp add: isWhiteSpace_def)
  have lf: "\<not> isWhiteSpace (last (46 # f))"
    using assms(3) dot by (cases f rule: rev_cases) (simp_all add: digit_not_space)
  have t1: "trim (w @ 46 # f) = w @ 46 # f"
    using hd lf assms(1) by (intro trim_id) simp_all
  have t2: "trim w = w"
    using hd lw assms(1) by (intro trim_id) simp_all
  have s1: "split 46 (w @ 46 # f) = [w, f]"
    using assms(2,3) by (simp add: split_first split_none digit_not_dot)
  have s2: "split 46 w = [w]"
    using assms(2) by (simp add: split_none digit_not_dot)
  have len: "length (take 6 (f @ js ''000000'')) = 6"
    by (simp add: js_def)
  have pad: "BigInt (w @ take 6 (f @ js ''000000''))
      = BigInt w * 10 ^ 6 + BigInt (take 6 (f @ js ''000000''))"
    unfolding BigInt_append len ..
  have "parseAmount (w @ 46 # f) = Some (BigInt (w @ take 6 (f @ js ''000000'')))"
    using assms by (simp add: parseAmount_def t1 s1 del: take_append)
  then show "parseAmount (w @ 46 # f)
           = Some (BigInt w * 10 ^ 6 + BigInt (take 6 (f @ js ''000000'')))"
    unfolding pad .
  have z: "take 6 ([] @ js ''000000'') = js ''000000''" "length (js ''000000'') = 6"
      "BigInt (js ''000000'') = 0"
    by (simp_all add: BigInt_def js_def)
  have "parseAmount w = Some (BigInt (w @ js ''000000''))"
    using assms by (simp add: parseAmount_def t2 s2 z(1) del: take_append append_Nil)
  then show "parseAmount w = Some (BigInt w * 10 ^ 6)"
    unfolding BigInt_append z by simp
qed

text \<open>
  Claim C8. The parser is to return null for every input that contains a non-numeric
  character. The input \<^verbatim>\<open>"1.5.x"\<close> contains the letter x, yet the parser accepts it as
  1.5: \<^verbatim>\<open>split('.')\<close> gives three parts, the destructuring keeps the first two, and
  the two tests look only at those, so whatever follows a second dot is never checked.
\<close>

theorem parseAmount_ignores_text_after_second_dot:
  "parseAmount (js ''1.5.x'') = Some 1500000"
  by (simp add: parseAmount_def js_def trim_def isWhiteSpace_def isDigit_def BigInt_def)

theorem parseAmount_ignores_text_after_second_dot_witness:
  "parseAmount (js ''1.5.x'') \<noteq> None"
  using parseAmount_ignores_text_after_second_dot by simp

subsection \<open>Accumulation of contributions\<close>



subsection \<open>The read accessors\<close>

text \<open>
  Claim C7. For every state: \<^verbatim>\<open>getCampaign\<close> and \<^verbatim>\<open>activeCampaignId\<close> fail exactly when
  \<open>campaignId = 0\<close>; \<^verbatim>\<open>getContribution\<close> never fails, and in every state a run reaches
  from deployment it returns the uninitialized (all-zero) handle exactly for the pairs
  (campaign id, contributor) with no contribution in the log; \<^verbatim>\<open>isActive\<close> never fails
  and returns false exactly when \<open>campaignId = 0\<close>, or the current campaign is finalized,
  or the block time has reached its end time, and true otherwise.
\<close>

theorem accessors:
  "((\<exists>err. getCampaign s = Inl err) \<longleftrightarrow> campaignId s = 0)
   \<and> ((\<exists>err. activeCampaignId s = Inl err) \<longleftrightarrow> campaignId s = 0)
   \<and> (\<exists>h. getContribution i c s = Inr h)
   \<and> (getContribution i c (run (deploy d v t) cs) = Inr Uninitialized
        \<longleftrightarrow> \<not> hasContributed i c (events (run (deploy d v t) cs)))
   \<and> (\<exists>b. isActive now s = Inr b)
   \<and> (isActive now s = Inr False \<longleftrightarrow>
          campaignId s = 0 \<or> finalized (campaigns s (campaignId s))
          \<or> unat (endTimestamp (campaigns s (campaignId s))) \<le> now)
   \<and> (isActive now s = Inr True \<longleftrightarrow>
          \<not> (campaignId s = 0 \<or> finalized (campaigns s (campaignId s))
             \<or> unat (endTimestamp (campaigns s (campaignId s))) \<le> now))"
proof -
  have "entriesMatchLog (run (deploy d v t) cs)"
    by (rule entriesMatchLog_run)
  then have "getContribution i c (run (deploy d v t) cs) = Inr Uninitialized
        \<longleftrightarrow> \<not> hasContributed i c (events (run (deploy d v t) cs))"
    by (auto simp: entriesMatchLog_def getContribution_def)
  then show ?thesis
    by (auto simp: getCampaign_def activeCampaignId_def getContribution_def isActive_def Let_def)
qed

theorem accessors_witness:
  "getCampaign demo = Inr (''Demo'', 2000000, 4600, False, fundraiser, Handle 1 0)
   \<and> activeCampaignId demo = Inr 1
   \<and> getCampaign deployed = Inl CampaignNotConfigured
   \<and> getContribution 1 bob funded = Inr Uninitialized
   \<and> getContribution 1 alice funded = Inr (Handle 11 1250000)
   \<and> isActive 2000 demo = Inr True
   \<and> isActive 4600 demo = Inr False
   \<and> isActive 2000 closed = Inr False
   \<and> isActive 2000 deployed = Inr False"
proof -
  note a = accessors[of demo 1 bob fundraiser vault cusdt
     "[Configure fundraiser 1000 ''Demo'' 2000000 4600, Mint alice 5000000,
      SetOperator alice vault 4600, Contribute alice 2000 1250000 True]" 2000]
  have 1: "getContribution 1 bob funded = Inr Uninitialized"
    using a unfolding funded_run[symmetric]
    by (simp add: funded_fields hasContributed_def parties_distinct)
  have 2: "isActive 2000 demo = Inr True"
    using a by (simp add: demo_fields)
  show ?thesis
    using 1 2
    by (simp add: getCampaign_def activeCampaignId_def getContribution_def isActive_def
        demo_fields funded_fields closed_fields deployed_def deploy_def)
qed

subsection \<open>Configuring a campaign\<close>

lemma configure_only_run:
  assumes "totalsInitialized s" "campaignId s \<noteq> 0" "\<not> finalized (campaigns s (campaignId s))"
    "list_all isConfigure cfgs"
  shows "totalsInitialized (run s cfgs)
       \<and> campaignId (run s cfgs) = campaignId s
       \<and> totalRaised (campaigns (run s cfgs) (campaignId s)) = totalRaised (campaigns s (campaignId s))
       \<and> \<not> finalized (campaigns (run s cfgs) (campaignId s))
       \<and> (\<forall>i. i \<noteq> campaignId s \<longrightarrow> campaigns (run s cfgs) i = campaigns s i)
       \<and> contributions (run s cfgs) = contributions s"
  using assms(4)
proof (induction cfgs rule: rev_induct)
  case Nil
  then show ?case using assms by (simp add: run_Nil)
next
  case (snoc c cfgs)
  let ?m = "run s cfgs"
  from snoc have ih: "totalsInitialized ?m" "campaignId ?m = campaignId s"
      "totalRaised (campaigns ?m (campaignId s)) = totalRaised (campaigns s (campaignId s))"
      "\<not> finalized (campaigns ?m (campaignId s))"
      "\<And>i. i \<noteq> campaignId s \<Longrightarrow> campaigns ?m i = campaigns s i"
      "contributions ?m = contributions s"
    by simp_all
  from snoc.prems obtain a now nm tg e where c: "c = Configure a now nm tg e"
    by (cases c) simp_all
  show ?case
  proof (cases "configureCampaign a now nm tg e ?m")
    case (Inl err)
    then show ?thesis using ih c by (simp add: run_snoc)
  next
    case (Inr s')
    from configureCampaign_Inr[OF Inr] have o: "a = owner ?m" "now < unat e" by simp_all
    from configure_in_place[OF ih(1) o, where nm = nm and tg = tg] ih(2,4) assms(2) Inr
    have f: "campaignId s' = campaignId ?m"
      "campaigns s' = (campaigns ?m)(campaignId ?m :=
               (campaigns ?m (campaignId ?m))\<lparr>name := nm, targetAmount := tg, endTimestamp := e\<rparr>)"
      "contributions s' = contributions ?m"
      by auto
    have e: "run s (cfgs @ [c]) = s'"
      using Inr c by (simp add: run_snoc)
    have "totalsInitialized s'"
      using totalsInitialized_exec[OF ih(1), of c] e by (simp add: run_snoc)
    then show ?thesis
      unfolding e using f ih by simp
  qed
qed

text \<open>
  Claim C4. \<^verbatim>\<open>configureCampaign\<close> fails for a caller other than the owner and, for the
  owner, when \<open>endTimestamp \<le> block.timestamp\<close>. When no campaign exists or the
  current one is finalized, it makes the next id current (from \<open>campaignId = 0\<close>, the
  value at deployment, this is id 1) and stores there the given name, target and end
  time, not finalized, with a fresh encrypted zero as total; contribution entries and
  every other campaign stay as they are. The counter is a \<^verbatim>\<open>uint256\<close> whose checked
  increment reverts at \<open>2^256 - 1\<close>, hence the side condition. Otherwise, in every
  state a run reaches from deployment, it keeps \<open>campaignId\<close> and overwrites exactly the
  fields name, targetAmount and endTimestamp of the current campaign, leaving its total,
  its finalized flag and all contribution entries unchanged; so any sequence of
  configure calls on a campaign that is not finalized keeps the id, the total handle and
  the entries. Storage at id 0 is never written.
\<close>

theorem configureCampaign_behaviour:
  "(a \<noteq> owner s \<longrightarrow> configureCampaign a now nm tg e s = Inl (OwnableUnauthorizedAccount a))
   \<and> (a = owner s \<and> unat e \<le> now \<longrightarrow> configureCampaign a now nm tg e s = Inl InvalidEndTimestamp)
   \<and> (a = owner s \<and> now < unat e
        \<and> (campaignId s = 0 \<or> finalized (campaigns s (campaignId s)))
        \<and> campaignId s \<noteq> maxUint256 \<longrightarrow>
        (\<exists>s' zero. configureCampaign a now nm tg e s = Inr s'
           \<and> campaignId s' = campaignId s + 1
           \<and> campaigns s' = (campaigns s)(campaignId s + 1 :=
                 \<lparr>name = nm, targetAmount = tg, endTimestamp = e, finalized = False,
                  totalRaised = zero\<rparr>)
           \<and> zero \<noteq> Uninitialized \<and> decrypt zero = 0
           \<and> contributions s' = contributions s))
   \<and> (s = run (deploy d v t) cs \<and> a = owner s \<and> now < unat e
        \<and> campaignId s \<noteq> 0 \<and> \<not> finalized (campaigns s (campaignId s)) \<longrightarrow>
        (\<exists>s'. configureCampaign a now nm tg e s = Inr s'
           \<and> campaignId s' = campaignId s
           \<and> campaigns s' = (campaigns s)(campaignId s :=
                 (campaigns s (campaignId s))\<lparr>name := nm, targetAmount := tg, endTimestamp := e\<rparr>)
           \<and> contributions s' = contributions s))
   \<and> (s = run (deploy d v t) cs \<and> campaignId s \<noteq> 0
        \<and> \<not> finalized (campaigns s (campaignId s)) \<and> list_all isConfigure cfgs \<longrightarrow>
        campaignId (run s cfgs) = campaignId s
        \<and> totalRaised (campaigns (run s cfgs) (campaignId s))
             = totalRaised (campaigns s (campaignId s))
        \<and> \<not> finalized (campaigns (run s cfgs) (campaignId s))
        \<and> (\<forall>i. i \<noteq> campaignId s \<longrightarrow> campaigns (run s cfgs) i = campaigns s i)
        \<and> contributions (run s cfgs) = contributions s)
   \<and> campaignId (deploy d v t) = 0
   \<and> campaigns (run (deploy d v t) cs) 0 = noCampaign
   \<and> contributions (run (deploy d v t) cs) 0 = (\<lambda>_. Uninitialized)"
proof -
  have 1: "configureCampaign a now nm tg e s = Inl (OwnableUnauthorizedAccount a)"
    if "a \<noteq> owner s"
    using that by (simp add: configureCampaign_Inl)
  have 2: "configureCampaign a now nm tg e s = Inl InvalidEndTimestamp"
    if "a = owner s \<and> unat e \<le> now"
    using that by (simp add: configureCampaign_Inl)
  have 3: "\<exists>s' zero. configureCampaign a now nm tg e s = Inr s'
           \<and> campaignId s' = campaignId s + 1
           \<and> campaigns s' = (campaigns s)(campaignId s + 1 :=
                 \<lparr>name = nm, targetAmount = tg, endTimestamp = e, finalized = False,
                  totalRaised = zero\<rparr>)
           \<and> zero \<noteq> Uninitialized \<and> decrypt zero = 0
           \<and> contributions s' = contributions s"
    if h: "a = owner s \<and> now < unat e
        \<and> (campaignId s = 0 \<or> finalized (campaigns s (campaignId s)))
        \<and> campaignId s \<noteq> maxUint256"
  proof -
    have "\<forall>err. configureCampaign a now nm tg e s \<noteq> Inl err"
      using h by (simp add: configureCampaign_Inl)
    then obtain s' where s': "configureCampaign a now nm tg e s = Inr s'"
      by (cases "configureCampaign a now nm tg e s") auto
    from configureCampaign_Inr[OF s'] h s' show ?thesis
      by (intro exI[of _ s'] exI[of _ "Handle (nextHandle s) 0"]) auto
  qed
  have r: "totalsInitialized (run (deploy d v t) cs)" "untouchedAbove (run (deploy d v t) cs)"
    by (rule totalsInitialized_run, rule untouchedAbove_run)
  have 4: "\<exists>s'. configureCampaign a now nm tg e s = Inr s'
           \<and> campaignId s' = campaignId s
           \<and> campaigns s' = (campaigns s)(campaignId s :=
                 (campaigns s (campaignId s))\<lparr>name := nm, targetAmount := tg, endTimestamp := e\<rparr>)
           \<and> contributions s' = contributions s"
    if "s = run (deploy d v t) cs \<and> a = owner s \<and> now < unat e
        \<and> campaignId s \<noteq> 0 \<and> \<not> finalized (campaigns s (campaignId s))"
    using that r(1) configure_in_place[of s a now e nm tg] by blast
  have 5: "campaignId (run s cfgs) = campaignId s
        \<and> totalRaised (campaigns (run s cfgs) (campaignId s))
             = totalRaised (campaigns s (campaignId s))
        \<and> \<not> finalized (campaigns (run s cfgs) (campaignId s))
        \<and> (\<forall>i. i \<noteq> campaignId s \<longrightarrow> campaigns (run s cfgs) i = campaigns s i)
        \<and> contributions (run s cfgs) = contributions s"
    if "s = run (deploy d v t) cs \<and> campaignId s \<noteq> 0
        \<and> \<not> finalized (campaigns s (campaignId s)) \<and> list_all isConfigure cfgs"
    using that r(1) configure_only_run[of s cfgs] by blast
  have 6: "campaignId (deploy d v t) = 0"
    by (simp add: deploy_def)
  have 7: "campaigns (run (deploy d v t) cs) 0 = noCampaign"
      "contributions (run (deploy d v t) cs) 0 = (\<lambda>_. Uninitialized)"
    using r(2) by (simp_all add: untouchedAbove_def)
  show ?thesis
    using 1 2 3 4 5 6 7 by blast
qed

theorem configureCampaign_behaviour_witness:
  "configureCampaign alice 2000 ''Mine'' 1 9000 demo = Inl (OwnableUnauthorizedAccount alice)
   \<and> configureCampaign fundraiser 2000 ''Late'' 1 1500 demo = Inl InvalidEndTimestamp
   \<and> (\<exists>s'. configureCampaign fundraiser 1000 ''Demo'' 2000000 4600 deployed = Inr s'
          \<and> campaignId s' = 1 \<and> decrypt (totalRaised (campaigns s' 1)) = 0
          \<and> totalRaised (campaigns s' 1) \<noteq> Uninitialized)
   \<and> (\<exists>s'. configureCampaign fundraiser 3000 ''Second'' 500 9000 closed = Inr s'
          \<and> campaignId s' = 2 \<and> decrypt (totalRaised (campaigns s' 2)) = 0
          \<and> campaigns s' 1 = campaigns closed 1)
   \<and> (\<exists>s'. configureCampaign fundraiser 2000 ''Longer'' 3000000 9000 funded = Inr s'
          \<and> campaignId s' = 1
          \<and> campaigns s' 1 = \<lparr>name = ''Longer'', targetAmount = 3000000, endTimestamp = 9000,
                finalized = False, totalRaised = Handle 12 1250000\<rparr>
          \<and> contributions s' 1 alice = Handle 11 1250000)
   \<and> campaignId (run funded [Configure fundraiser 2000 ''Longer'' 3000000 9000,
         Configure alice 2100 ''Mine'' 1 9000, Configure fundraiser 2200 ''Short'' 10 2300]) = 1
   \<and> totalRaised (campaigns (run funded [Configure fundraiser 2000 ''Longer'' 3000000 9000,
         Configure alice 2100 ''Mine'' 1 9000, Configure fundraiser 2200 ''Short'' 10 2300]) 1)
       = Handle 12 1250000"
proof -
  note th = configureCampaign_behaviour
  have 1: "configureCampaign alice 2000 ''Mine'' 1 9000 demo = Inl (OwnableUnauthorizedAccount alice)"
    using th[where a = alice and s = demo and now = 2000 and nm = "''Mine''" and tg = 1 and e = 9000
        and d = fundraiser and v = vault and t = cusdt and cs = "[]" and cfgs = "[]"]
    by (simp add: demo_fields parties_distinct)
  have 2: "configureCampaign fundraiser 2000 ''Late'' 1 1500 demo = Inl InvalidEndTimestamp"
    using th[where a = fundraiser and s = demo and now = 2000 and nm = "''Late''" and tg = 1 and e = 1500
        and d = fundraiser and v = vault and t = cusdt and cs = "[]" and cfgs = "[]"]
    by (simp add: demo_fields)
  have 3: "\<exists>s'. configureCampaign fundraiser 1000 ''Demo'' 2000000 4600 deployed = Inr s'
          \<and> campaignId s' = 1 \<and> decrypt (totalRaised (campaigns s' 1)) = 0
          \<and> totalRaised (campaigns s' 1) \<noteq> Uninitialized"
    using th[where a = fundraiser and s = deployed and now = 1000 and nm = "''Demo''"
        and tg = 2000000 and e = 4600
        and d = fundraiser and v = vault and t = cusdt and cs = "[]" and cfgs = "[]"]
    by (auto simp: deployed_fields maxUint256_def)
  have 4: "\<exists>s'. configureCampaign fundraiser 3000 ''Second'' 500 9000 closed = Inr s'
          \<and> campaignId s' = 2 \<and> decrypt (totalRaised (campaigns s' 2)) = 0
          \<and> campaigns s' 1 = campaigns closed 1"
    using th[where a = fundraiser and s = closed and now = 3000 and nm = "''Second''"
        and tg = 500 and e = 9000
        and d = fundraiser and v = vault and t = cusdt and cs = "[]" and cfgs = "[]"]
    by (auto simp: closed_fields maxUint256_def)
  have 5: "\<exists>s'. configureCampaign fundraiser 2000 ''Longer'' 3000000 9000 funded = Inr s'
          \<and> campaignId s' = 1
          \<and> campaigns s' 1 = \<lparr>name = ''Longer'', targetAmount = 3000000, endTimestamp = 9000,
                finalized = False, totalRaised = Handle 12 1250000\<rparr>
          \<and> contributions s' 1 alice = Handle 11 1250000"
    using th[where a = fundraiser and s = funded and now = 2000 and nm = "''Longer''"
        and tg = 3000000 and e = 9000 and d = fundraiser and v = vault and t = cusdt
        and cs = "[Configure fundraiser 1000 ''Demo'' 2000000 4600, Mint alice 5000000,
      SetOperator alice vault 4600, Contribute alice 2000 1250000 True]" and cfgs = "[]"] funded_run
    by (auto simp: funded_fields)
  have 6: "campaignId (run funded [Configure fundraiser 2000 ''Longer'' 3000000 9000,
         Configure alice 2100 ''Mine'' 1 9000, Configure fundraiser 2200 ''Short'' 10 2300]) = 1
   \<and> totalRaised (campaigns (run funded [Configure fundraiser 2000 ''Longer'' 3000000 9000,
         Configure alice 2100 ''Mine'' 1 9000, Configure fundraiser 2200 ''Short'' 10 2300]) 1)
       = Handle 12 1250000"
    using th[where a = fundraiser and now = 2000 and nm = "''Longer''" and tg = 3000000 and e = 9000
        and s = funded and d = fundraiser and v = vault and t = cusdt
        and cs = "[Configure fundraiser 1000 ''Demo'' 2000000 4600, Mint alice 5000000,
      SetOperator alice vault 4600, Contribute alice 2000 1250000 True]"
        and cfgs = "[Configure fundraiser 2000 ''Longer'' 3000000 9000,
         Configure alice 2100 ''Mine'' 1 9000, Configure fundraiser 2200 ''Short'' 10 2300]"] funded_run
    by (auto simp: funded_fields)
  show ?thesis using 1 2 3 4 5 6 by blast
qed

subsection \<open>Re-opening an expired campaign\<close>

text \<open>
  Claim C10. In every state a run reaches from deployment whose current campaign exists,
  is not finalized and has reached its end time, \<^verbatim>\<open>isActive\<close> is false and
  \<^verbatim>\<open>contribute\<close> fails with CampaignEnded; a \<^verbatim>\<open>configureCampaign\<close> call by the owner
  with any end time strictly after the block time succeeds, keeps \<open>campaignId\<close>, the
  handle of \<open>totalRaised\<close> and every contribution entry, and makes \<^verbatim>\<open>isActive\<close> true
  at every time before the new end; a contribution made then (valid proof, operator
  approval in force) succeeds and adds the transferred amount to the same campaign total
  and to the contributor's same entry.
\<close>

theorem reopen_expired:
  "s = run (deploy d v t) cs \<and> campaignId s \<noteq> 0
   \<and> \<not> finalized (campaigns s (campaignId s))
   \<and> unat (endTimestamp (campaigns s (campaignId s))) \<le> now \<and> now < unat e \<longrightarrow>
     isActive now s = Inr False
     \<and> contribute b now x p s = Inl CampaignEnded
     \<and> (\<exists>s'. configureCampaign (owner s) now nm tg e s = Inr s'
          \<and> campaignId s' = campaignId s
          \<and> totalRaised (campaigns s' (campaignId s)) = totalRaised (campaigns s (campaignId s))
          \<and> contributions s' = contributions s
          \<and> (now' < unat e \<longrightarrow> isActive now' s' = Inr True)
          \<and> (now' < unat e \<and> p \<and> isOperator b (self s) now' s \<longrightarrow>
               (\<exists>r s'' tr. contribute b now' x p s' = Inr (r, s'')
                  \<and> events s'' = events s' @ [ContributionReceived (campaignId s) b tr]
                  \<and> decrypt (totalRaised (campaigns s'' (campaignId s)))
                       = decrypt (totalRaised (campaigns s (campaignId s))) + decrypt tr
                  \<and> decrypt (contributions s'' (campaignId s) b)
                       = decrypt (contributions s (campaignId s) b) + decrypt tr)))"
proof (intro impI)
  assume h: "s = run (deploy d v t) cs \<and> campaignId s \<noteq> 0
   \<and> \<not> finalized (campaigns s (campaignId s))
   \<and> unat (endTimestamp (campaigns s (campaignId s))) \<le> now \<and> now < unat e"
  then have ti: "totalsInitialized s"
    by (simp add: totalsInitialized_run)
  from h have g: "campaignId s \<noteq> 0" "\<not> finalized (campaigns s (campaignId s))"
      "unat (endTimestamp (campaigns s (campaignId s))) \<le> now" "now < unat e"
    by blast+
  have 1: "isActive now s = Inr False"
    using g by (simp add: isActive_def)
  have 2: "contribute b now x p s = Inl CampaignEnded"
    using g by (simp add: contribute_Inl)
  from configure_in_place[OF ti refl, of now e nm tg] g
  obtain s' where s': "configureCampaign (owner s) now nm tg e s = Inr s'"
      "campaignId s' = campaignId s"
      "campaigns s' = (campaigns s)(campaignId s :=
               (campaigns s (campaignId s))\<lparr>name := nm, targetAmount := tg, endTimestamp := e\<rparr>)"
      "contributions s' = contributions s"
    by auto
  from configureCampaign_Inr[OF s'(1)] have o: "operators s' = operators s" "self s' = self s"
    by simp_all
  have 3: "totalRaised (campaigns s' (campaignId s)) = totalRaised (campaigns s (campaignId s))"
    using s'(3) by simp
  have f: "\<not> finalized (campaigns s' (campaignId s'))"
      "unat (endTimestamp (campaigns s' (campaignId s'))) = unat e" "campaignId s' \<noteq> 0"
    using s' g by simp_all
  have 4: "isActive now' s' = Inr True" if "now' < unat e"
    using that f by (simp add: isActive_def)
  have 5: "\<exists>r s'' tr. contribute b now' x p s' = Inr (r, s'')
                  \<and> events s'' = events s' @ [ContributionReceived (campaignId s) b tr]
                  \<and> decrypt (totalRaised (campaigns s'' (campaignId s)))
                       = decrypt (totalRaised (campaigns s (campaignId s))) + decrypt tr
                  \<and> decrypt (contributions s'' (campaignId s) b)
                       = decrypt (contributions s (campaignId s) b) + decrypt tr"
    if c: "now' < unat e \<and> p \<and> isOperator b (self s) now' s"
  proof -
    have "isOperator b (self s') now' s'"
      using c o by (simp add: isOperator_def)
    from contribute_succeeds[OF f(3) f(1) _ _ this, where x = x] c f(2)
    show ?thesis by (simp add: s'(2) s'(4) 3)
  qed
  show "isActive now s = Inr False
     \<and> contribute b now x p s = Inl CampaignEnded
     \<and> (\<exists>s'. configureCampaign (owner s) now nm tg e s = Inr s'
          \<and> campaignId s' = campaignId s
          \<and> totalRaised (campaigns s' (campaignId s)) = totalRaised (campaigns s (campaignId s))
          \<and> contributions s' = contributions s
          \<and> (now' < unat e \<longrightarrow> isActive now' s' = Inr True)
          \<and> (now' < unat e \<and> p \<and> isOperator b (self s) now' s \<longrightarrow>
               (\<exists>r s'' tr. contribute b now' x p s' = Inr (r, s'')
                  \<and> events s'' = events s' @ [ContributionReceived (campaignId s) b tr]
                  \<and> decrypt (totalRaised (campaigns s'' (campaignId s)))
                       = decrypt (totalRaised (campaigns s (campaignId s))) + decrypt tr
                  \<and> decrypt (contributions s'' (campaignId s) b)
                       = decrypt (contributions s (campaignId s) b) + decrypt tr)))"
    using 1 2 s'(1,2,4) 3 4 5 by blast
qed

theorem reopen_expired_witness:
  "isActive 4600 funded = Inr False
   \<and> contribute alice 4600 100 True funded = Inl CampaignEnded
   \<and> (\<exists>s'. configureCampaign fundraiser 4600 ''Demo'' 2000000 9000 funded = Inr s'
        \<and> campaignId s' = 1
        \<and> totalRaised (campaigns s' 1) = Handle 12 1250000
        \<and> contributions s' 1 alice = Handle 11 1250000
        \<and> isActive 4600 s' = Inr True
        \<and> (\<exists>r s'' tr. contribute alice 4600 100 True s' = Inr (r, s'')
             \<and> events s'' = events s' @ [ContributionReceived 1 alice tr]
             \<and> decrypt (totalRaised (campaigns s'' 1)) = 1250000 + decrypt tr
             \<and> decrypt (contributions s'' 1 alice) = 1250000 + decrypt tr))"
proof -
  have a: "isOperator alice (self funded) 4600 funded"
    by (simp add: funded_def demo_def ledger_defs parties)
  from reopen_expired[where s = funded and d = fundraiser and v = vault and t = cusdt
      and cs = "[Configure fundraiser 1000 ''Demo'' 2000000 4600, Mint alice 5000000,
      SetOperator alice vault 4600, Contribute alice 2000 1250000 True]"
      and now = 4600 and e = 9000 and b = alice and x = 100 and p = True
      and nm = "''Demo''" and tg = 2000000 and now' = 4600] funded_run a
  show ?thesis
    by (auto simp: funded_fields)
qed

subsection \<open>Closing a campaign before its deadline\<close>

text \<open>
  Claim C9. \<^verbatim>\<open>closeCampaign\<close> has no deadline precondition: it reverts exactly when the
  caller is not the owner, or \<open>campaignId = 0\<close>, or the current campaign is already
  finalized, whatever the block time; in particular the owner's call succeeds while the
  block time is still before the campaign's end. From the state it leaves, the campaign
  is finalized and \<^verbatim>\<open>contribute\<close> fails with CampaignAlreadyFinalized, and after any
  further run of calls the campaign record and its contribution entries are still the
  same, and \<^verbatim>\<open>contribute\<close> still fails that way whenever this id is the current one.
\<close>

theorem close_any_time:
  "((\<exists>err. closeCampaign a now s = Inl err) \<longleftrightarrow>
       a \<noteq> owner s \<or> campaignId s = 0 \<or> finalized (campaigns s (campaignId s)))
   \<and> (a = owner s \<and> campaignId s \<noteq> 0 \<and> \<not> finalized (campaigns s (campaignId s))
        \<and> now < unat (endTimestamp (campaigns s (campaignId s))) \<longrightarrow>
          (\<exists>r s'. closeCampaign a now s = Inr (r, s')))
   \<and> (closeCampaign a now s = Inr (r, s') \<longrightarrow>
          finalized (campaigns s' (campaignId s))
          \<and> contribute b now x p s' = Inl CampaignAlreadyFinalized
          \<and> campaigns (run s' cs) (campaignId s) = campaigns s' (campaignId s)
          \<and> contributions (run s' cs) (campaignId s) = contributions s' (campaignId s)
          \<and> (campaignId (run s' cs) = campaignId s \<longrightarrow>
                contribute b now' x p (run s' cs) = Inl CampaignAlreadyFinalized))"
proof -
  note 1 = closeCampaign_fails_iff[of a now s]
  have 2: "\<exists>r s'. closeCampaign a now s = Inr (r, s')"
    if "a = owner s \<and> campaignId s \<noteq> 0 \<and> \<not> finalized (campaigns s (campaignId s))
        \<and> now < unat (endTimestamp (campaigns s (campaignId s)))"
  proof -
    from that 1 have "\<forall>err. closeCampaign a now s \<noteq> Inl err" by blast
    then show ?thesis by (cases "closeCampaign a now s") auto
  qed
  have 3: "finalized (campaigns s' (campaignId s))
          \<and> contribute b now x p s' = Inl CampaignAlreadyFinalized
          \<and> campaigns (run s' cs) (campaignId s) = campaigns s' (campaignId s)
          \<and> contributions (run s' cs) (campaignId s) = contributions s' (campaignId s)
          \<and> (campaignId (run s' cs) = campaignId s \<longrightarrow>
                contribute b now' x p (run s' cs) = Inl CampaignAlreadyFinalized)"
    if c: "closeCampaign a now s = Inr (r, s')"
  proof -
    from closeCampaign_Inr[OF c] have f: "finalized (campaigns s' (campaignId s))"
        "campaignId s' = campaignId s" "campaignId s \<noteq> 0"
      by simp_all
    then have g: "finalized (campaigns s' (campaignId s))" "campaignId s \<le> campaignId s'"
      by simp_all
    note fr = frozen_run[OF g, of cs]
    have "contribute b now x p s' = Inl CampaignAlreadyFinalized"
      using f by (simp add: contribute_Inl)
    moreover have "contribute b now' x p (run s' cs) = Inl CampaignAlreadyFinalized"
      if "campaignId (run s' cs) = campaignId s"
      using that fr f by (simp add: contribute_Inl)
    ultimately show ?thesis using f fr by simp
  qed
  show ?thesis using 1 2 3 by blast
qed

theorem close_any_time_witness:
  "closeCampaign fundraiser 2500 funded = Inr (Handle 14 1250000, closed)
   \<and> 2500 < unat (endTimestamp (campaigns funded 1))
   \<and> finalized (campaigns closed 1)
   \<and> contribute alice 2500 100 True closed = Inl CampaignAlreadyFinalized
   \<and> contributions (run closed [Contribute alice 2600 100 True, Close fundraiser 2700,
        Configure fundraiser 2800 ''Second'' 500 9000, Contribute alice 2900 100 True]) 1
       = contributions closed 1
   \<and> campaigns (run closed [Contribute alice 2600 100 True, Close fundraiser 2700,
        Configure fundraiser 2800 ''Second'' 500 9000, Contribute alice 2900 100 True]) 1
       = campaigns closed 1
   \<and> (\<exists>err. closeCampaign alice 2500 funded = Inl err)
   \<and> (\<exists>err. closeCampaign fundraiser 2500 deployed = Inl err)
   \<and> (\<exists>err. closeCampaign fundraiser 2600 closed = Inl err)"
proof -
  note th = close_any_time[where b = alice and x = 100 and p = True
      and cs = "[Contribute alice 2600 100 True, Close fundraiser 2700,
        Configure fundraiser 2800 ''Second'' 500 9000, Contribute alice 2900 100 True]"
      and now' = 2600]
  have 1: "finalized (campaigns closed 1)
   \<and> contribute alice 2500 100 True closed = Inl CampaignAlreadyFinalized
   \<and> contributions (run closed [Contribute alice 2600 100 True, Close fundraiser 2700,
        Configure fundraiser 2800 ''Second'' 500 9000, Contribute alice 2900 100 True]) 1
       = contributions closed 1
   \<and> campaigns (run closed [Contribute alice 2600 100 True, Close fundraiser 2700,
        Configure fundraiser 2800 ''Second'' 500 9000, Contribute alice 2900 100 True]) 1
       = campaigns closed 1"
    using th[where a = fundraiser and now = 2500 and s = funded and r = "Handle 14 1250000"
        and s' = closed] funded_close
    by (simp add: funded_fields)
  have 2: "\<exists>err. closeCampaign alice 2500 funded = Inl err"
    using th[where a = alice and now = 2500 and s = funded and r = "Handle 14 1250000"
        and s' = closed]
    by (simp add: funded_fields parties_distinct)
  have 3: "\<exists>err. closeCampaign fundraiser 2500 deployed = Inl err"
    using th[where a = fundraiser and now = 2500 and s = deployed and r = "Handle 14 1250000"
        and s' = closed]
    by (simp add: deployed_fields)
  have 4: "\<exists>err. closeCampaign fundraiser 2600 closed = Inl err"
    using th[where a = fundraiser and now = 2600 and s = closed and r = "Handle 14 1250000"
        and s' = closed]
    by (simp add: closed_fields)
  show ?thesis
    using 1 2 3 4 funded_close by (simp add: funded_fields)
qed

subsection \<open>Past campaigns and accumulation\<close>

text \<open>
  Claim C6. Let \<open>s\<close> be a state a run reaches from deployment and \<open>s'\<close> the state
  after one more call, of any kind. Campaigns with an id below the current one are
  finalized, and they and their contribution entries are the same in \<open>s'\<close> as in \<open>s\<close>. An entry changes only by a
  logged contribution of its contributor to the current campaign, and then the new entry
  is initialized and decrypts to the old value plus the transferred amount; a campaign
  total changes only that way, or by the creation of the next id, where an uninitialized
  total becomes an encrypted zero. So an initialized entry or total is never
  uninitialized again. An entry is initialized exactly when the log holds a contribution
  of that contributor to that campaign.
\<close>

theorem history_is_append_only:
  "s = run (deploy d v t) cs \<and> s' = exec c s \<longrightarrow>
     (i < campaignId s \<longrightarrow>
        campaigns s' i = campaigns s i \<and> contributions s' i = contributions s i)
     \<and> (contributions s' i b = contributions s i b
          \<or> (\<exists>tr. events s' = events s @ [ContributionReceived i b tr] \<and> i = campaignId s
                \<and> contributions s' i b \<noteq> Uninitialized
                \<and> decrypt (contributions s' i b) = decrypt (contributions s i b) + decrypt tr))
     \<and> (totalRaised (campaigns s' i) = totalRaised (campaigns s i)
          \<or> (\<exists>a tr. events s' = events s @ [ContributionReceived i a tr] \<and> i = campaignId s
                \<and> totalRaised (campaigns s' i) \<noteq> Uninitialized
                \<and> decrypt (totalRaised (campaigns s' i))
                     = decrypt (totalRaised (campaigns s i)) + decrypt tr)
          \<or> (i = campaignId s + 1 \<and> campaignId s' = i
                \<and> totalRaised (campaigns s i) = Uninitialized
                \<and> totalRaised (campaigns s' i) \<noteq> Uninitialized
                \<and> decrypt (totalRaised (campaigns s' i)) = 0))
     \<and> (contributions s i b \<noteq> Uninitialized \<longrightarrow> contributions s' i b \<noteq> Uninitialized)
     \<and> (totalRaised (campaigns s i) \<noteq> Uninitialized \<longrightarrow>
           totalRaised (campaigns s' i) \<noteq> Uninitialized)
     \<and> (contributions s i b \<noteq> Uninitialized \<longleftrightarrow> hasContributed i b (events s))
     \<and> (0 < i \<and> i < campaignId s \<longrightarrow> finalized (campaigns s i))"
proof (intro impI)
  assume h: "s = run (deploy d v t) cs \<and> s' = exec c s"
  then have r: "totalsInitialized s" "untouchedAbove s" "entriesMatchLog s" "pastFinalized s"
    by (simp_all add: totalsInitialized_run untouchedAbove_run entriesMatchLog_run
        pastFinalized_run)
  from h have s': "s' = exec c s" by blast
  have 1: "campaigns s' i = campaigns s i \<and> contributions s' i = contributions s i"
    if "i < campaignId s"
    unfolding s' using that by (rule past_exec)
  note 2 = entry_exec[of c s i b, folded s']
  note 3 = total_exec[OF r(1,2), of c i, folded s']
  have 4: "contributions s' i b \<noteq> Uninitialized" if "contributions s i b \<noteq> Uninitialized"
    using 2 that by auto
  have 5: "totalRaised (campaigns s' i) \<noteq> Uninitialized"
    if "totalRaised (campaigns s i) \<noteq> Uninitialized"
    using 3 that by auto
  have 6: "contributions s i b \<noteq> Uninitialized \<longleftrightarrow> hasContributed i b (events s)"
    using r(3) by (simp add: entriesMatchLog_def)
  have 7: "finalized (campaigns s i)" if "0 < i \<and> i < campaignId s"
    using r(4) that by (simp add: pastFinalized_def)
  show "(i < campaignId s \<longrightarrow>
        campaigns s' i = campaigns s i \<and> contributions s' i = contributions s i)
     \<and> (contributions s' i b = contributions s i b
          \<or> (\<exists>tr. events s' = events s @ [ContributionReceived i b tr] \<and> i = campaignId s
                \<and> contributions s' i b \<noteq> Uninitialized
                \<and> decrypt (contributions s' i b) = decrypt (contributions s i b) + decrypt tr))
     \<and> (totalRaised (campaigns s' i) = totalRaised (campaigns s i)
          \<or> (\<exists>a tr. events s' = events s @ [ContributionReceived i a tr] \<and> i = campaignId s
                \<and> totalRaised (campaigns s' i) \<noteq> Uninitialized
                \<and> decrypt (totalRaised (campaigns s' i))
                     = decrypt (totalRaised (campaigns s i)) + decrypt tr)
          \<or> (i = campaignId s + 1 \<and> campaignId s' = i
                \<and> totalRaised (campaigns s i) = Uninitialized
                \<and> totalRaised (campaigns s' i) \<noteq> Uninitialized
                \<and> decrypt (totalRaised (campaigns s' i)) = 0))
     \<and> (contributions s i b \<noteq> Uninitialized \<longrightarrow> contributions s' i b \<noteq> Uninitialized)
     \<and> (totalRaised (campaigns s i) \<noteq> Uninitialized \<longrightarrow>
           totalRaised (campaigns s' i) \<noteq> Uninitialized)
     \<and> (contributions s i b \<noteq> Uninitialized \<longleftrightarrow> hasContributed i b (events s))
     \<and> (0 < i \<and> i < campaignId s \<longrightarrow> finalized (campaigns s i))"
    using 1 2 3 4 5 6 7 by blast
qed

theorem history_is_append_only_witness:
  "campaigns (exec (Contribute alice 3100 100 True) second) 1 = campaigns second 1
   \<and> contributions (exec (Contribute alice 3100 100 True) second) 1 = contributions second 1
   \<and> contributions (exec (Close fundraiser 3100) second) 1 alice \<noteq> Uninitialized
   \<and> totalRaised (campaigns (exec (Close fundraiser 3100) second) 2) \<noteq> Uninitialized
   \<and> hasContributed 1 alice (events second) \<and> finalized (campaigns second 1)
   \<and> contributions second 2 alice = Uninitialized \<and> \<not> hasContributed 2 alice (events second)
   \<and> (\<exists>tr. events funded = events demo @ [ContributionReceived 1 alice tr]
         \<and> decrypt (contributions funded 1 alice)
              = decrypt (contributions demo 1 alice) + decrypt tr)"
proof -
  note cs = second_run
  have 1: "campaigns (exec (Contribute alice 3100 100 True) second) 1 = campaigns second 1
     \<and> contributions (exec (Contribute alice 3100 100 True) second) 1 = contributions second 1
     \<and> hasContributed 1 alice (events second) \<and> finalized (campaigns second 1)"
    using history_is_append_only[where s = second and d = fundraiser and v = vault and t = cusdt
        and cs = "[Configure fundraiser 1000 ''Demo'' 2000000 4600, Mint alice 5000000,
      SetOperator alice vault 4600, Contribute alice 2000 1250000 True,
      Close fundraiser 2500, Configure fundraiser 3000 ''Second'' 500 9000]"
        and c = "Contribute alice 3100 100 True" and i = 1 and b = alice
        and s' = "exec (Contribute alice 3100 100 True) second"] cs
    by (simp add: second_fields)
  have 2: "contributions (exec (Close fundraiser 3100) second) 1 alice \<noteq> Uninitialized"
    using history_is_append_only[where s = second and d = fundraiser and v = vault and t = cusdt
        and cs = "[Configure fundraiser 1000 ''Demo'' 2000000 4600, Mint alice 5000000,
      SetOperator alice vault 4600, Contribute alice 2000 1250000 True,
      Close fundraiser 2500, Configure fundraiser 3000 ''Second'' 500 9000]"
        and c = "Close fundraiser 3100" and i = 1 and b = alice
        and s' = "exec (Close fundraiser 3100) second"] cs
    by (simp add: second_fields)
  have 3: "totalRaised (campaigns (exec (Close fundraiser 3100) second) 2) \<noteq> Uninitialized
     \<and> contributions second 2 alice = Uninitialized \<and> \<not> hasContributed 2 alice (events second)"
    using history_is_append_only[where s = second and d = fundraiser and v = vault and t = cusdt
        and cs = "[Configure fundraiser 1000 ''Demo'' 2000000 4600, Mint alice 5000000,
      SetOperator alice vault 4600, Contribute alice 2000 1250000 True,
      Close fundraiser 2500, Configure fundraiser 3000 ''Second'' 500 9000]"
        and c = "Close fundraiser 3100" and i = 2 and b = alice
        and s' = "exec (Close fundraiser 3100) second"] cs
    by (simp add: second_fields)
  have 4: "\<exists>tr. events funded = events demo @ [ContributionReceived 1 alice tr]
         \<and> decrypt (contributions funded 1 alice)
              = decrypt (contributions demo 1 alice) + decrypt tr"
    using history_is_append_only[where s = demo and d = fundraiser and v = vault and t = cusdt
        and cs = "[Configure fundraiser 1000 ''Demo'' 2000000 4600, Mint alice 5000000,
      SetOperator alice vault 4600]"
        and c = "Contribute alice 2000 1250000 True" and i = 1 and b = alice
        and s' = funded] demo_run funded_def
    by (simp add: demo_fields funded_fields)
  show ?thesis using 1 2 3 4 by blast
qed

subsection \<open>When a contribution fails\<close>

text \<open>
  Claim C5, as stated, read on the concrete deployment: the campaign exists, is not
  finalized and has not ended at block time 2000, yet \<^verbatim>\<open>contribute\<close> fails when the input
  proof does not verify, and fails for Bob, who has not approved the vault as operator.
\<close>

theorem contribute_fails_outside_the_three_cases:
  "campaignId demo \<noteq> 0 \<and> \<not> finalized (campaigns demo (campaignId demo))
   \<and> \<not> unat (endTimestamp (campaigns demo (campaignId demo))) \<le> 2000
   \<and> contribute alice 2000 1250000 False demo = Inl InvalidInputProof
   \<and> contribute bob 2000 1250000 True demo = Inl (UnauthorizedSpender bob vault)
   \<and> \<not> ((\<exists>err. contribute alice 2000 1250000 False demo = Inl err) \<longleftrightarrow>
          (campaignId demo = 0 \<or> finalized (campaigns demo (campaignId demo))
           \<or> unat (endTimestamp (campaigns demo (campaignId demo))) \<le> 2000))"
proof -
  have 1: "contribute alice 2000 1250000 False demo = Inl InvalidInputProof"
    by (simp add: contribute_Inl demo_fields)
  have 2: "contribute bob 2000 1250000 True demo = Inl (UnauthorizedSpender bob vault)"
    by (simp add: demo_def ledger_defs parties)
  show ?thesis using 1 2 by (simp add: demo_fields)
qed

text \<open>
  Claim C5, amended. \<^verbatim>\<open>contribute\<close> fails with CampaignNotConfigured exactly when
  \<open>campaignId = 0\<close>, with CampaignAlreadyFinalized exactly when the current campaign
  exists and is finalized, and with CampaignEnded exactly when it exists, is not finalized
  and the block time has reached its end time. In each of these three cases the call
  fails. Outside them it fails only when the input proof does not verify or the caller
  has not approved the contract as operator on the token. Every failed call leaves the
  state as it was.
\<close>

theorem contribute_failures:
  "(contribute a now x p s = Inl CampaignNotConfigured \<longleftrightarrow> campaignId s = 0)
   \<and> (contribute a now x p s = Inl CampaignAlreadyFinalized \<longleftrightarrow>
          campaignId s \<noteq> 0 \<and> finalized (campaigns s (campaignId s)))
   \<and> (contribute a now x p s = Inl CampaignEnded \<longleftrightarrow>
          campaignId s \<noteq> 0 \<and> \<not> finalized (campaigns s (campaignId s))
          \<and> unat (endTimestamp (campaigns s (campaignId s))) \<le> now)
   \<and> (campaignId s = 0 \<or> finalized (campaigns s (campaignId s))
        \<or> unat (endTimestamp (campaigns s (campaignId s))) \<le> now \<longrightarrow>
          (\<exists>err. contribute a now x p s = Inl err))
   \<and> ((\<exists>err. contribute a now x p s = Inl err) \<longleftrightarrow>
          campaignId s = 0 \<or> finalized (campaigns s (campaignId s))
          \<or> unat (endTimestamp (campaigns s (campaignId s))) \<le> now
          \<or> \<not> p \<or> \<not> isOperator a (self s) now s)
   \<and> ((\<exists>err. contribute a now x p s = Inl err) \<longrightarrow> exec (Contribute a now x p) s = s)"
proof -
  have 1: "contribute a now x p s = Inl CampaignNotConfigured \<longleftrightarrow> campaignId s = 0"
    unfolding contribute_Inl by auto
  have 2: "contribute a now x p s = Inl CampaignAlreadyFinalized \<longleftrightarrow>
          campaignId s \<noteq> 0 \<and> finalized (campaigns s (campaignId s))"
    unfolding contribute_Inl by auto
  have 3: "contribute a now x p s = Inl CampaignEnded \<longleftrightarrow>
          campaignId s \<noteq> 0 \<and> \<not> finalized (campaigns s (campaignId s))
          \<and> unat (endTimestamp (campaigns s (campaignId s))) \<le> now"
    unfolding contribute_Inl by auto
  note 5 = contribute_fails_iff[of a now x p s]
  have 6: "exec (Contribute a now x p) s = s" if "\<exists>err. contribute a now x p s = Inl err"
    using that by auto
  show ?thesis using 1 2 3 5 6 by blast
qed

theorem contribute_failures_witness:
  "contribute alice 2000 100 True deployed = Inl CampaignNotConfigured
   \<and> contribute alice 2600 100 True closed = Inl CampaignAlreadyFinalized
   \<and> contribute alice 4600 100 True demo = Inl CampaignEnded
   \<and> exec (Contribute alice 4600 100 True) demo = demo
   \<and> (\<forall>err. contribute alice 2000 1250000 True demo \<noteq> Inl err)"
proof -
  have 1: "contribute alice 2000 100 True deployed = Inl CampaignNotConfigured"
    using contribute_failures[of alice 2000 100 True deployed] by (simp add: deployed_fields)
  have 2: "contribute alice 2600 100 True closed = Inl CampaignAlreadyFinalized"
    using contribute_failures[of alice 2600 100 True closed] by (simp add: closed_fields)
  have 3: "contribute alice 4600 100 True demo = Inl CampaignEnded
      \<and> exec (Contribute alice 4600 100 True) demo = demo"
    using contribute_failures[of alice 4600 100 True demo] by (simp add: demo_fields)
  have 4: "\<forall>err. contribute alice 2000 1250000 True demo \<noteq> Inl err"
    using contribute_failures[of alice 2000 1250000 True demo]
    by (simp add: demo_fields isOperator_def)
  show ?thesis using 1 2 3 4 by blast
qed

subsection \<open>Who is granted access to which handle\<close>




subsection \<open>Closing a campaign and paying out\<close>

text \<open>
  Claim C2, as stated, read on the run in which 7 units were minted straight to the
  contract: no contribution was made, so the campaign's aggregate decrypts to 0, yet the
  close succeeds and pays the owner the contract's whole balance, 7.
\<close>

theorem close_pays_the_balance_not_the_aggregate:
  "(\<exists>r. closeCampaign fundraiser 2000 donated = Inr (r, paidOut))
   \<and> decrypt (totalRaised (campaigns donated 1)) = 0
   \<and> decrypt (balances donated fundraiser) = 0
   \<and> decrypt (balances paidOut fundraiser) = 7
   \<and> decrypt (balances paidOut fundraiser)
       \<noteq> decrypt (balances donated fundraiser) + decrypt (totalRaised (campaigns donated 1))"
proof -
  have "\<forall>err. closeCampaign fundraiser 2000 donated \<noteq> Inl err"
    by (simp add: closeCampaign_Inl donated_fields)
  then have "\<exists>r. closeCampaign fundraiser 2000 donated = Inr (r, paidOut)"
    by (cases "closeCampaign fundraiser 2000 donated") (auto simp: paidOut_def)
  then show ?thesis
    by (simp add: donated_fields paidOut_fields)
qed

text \<open>
  Claim C2, amended. \<^verbatim>\<open>closeCampaign\<close> fails for a caller other than the owner, and
  for the owner when no campaign exists or the current one is already finalized;
  otherwise it succeeds. A successful close finds the campaign not finalized and leaves
  it finalized, keeps the id, and returns an initialized payout handle that decrypts to
  the contract's whole token balance before the close, an uninitialized balance counting
  as zero. The owner's token balance grows by exactly that balance (64-bit) and the
  contract's balance decrypts to zero afterwards. After any further run, a close while
  this id is still current fails. The owner's gain is the pre-close aggregate of the
  campaign whenever the run since deployment brought tokens to the contract only through
  \<^verbatim>\<open>contribute\<close>.
\<close>

theorem closeCampaign_behaviour:
  "(a \<noteq> owner s \<longrightarrow> closeCampaign a now s = Inl (OwnableUnauthorizedAccount a))
   \<and> (a = owner s \<and> campaignId s = 0 \<longrightarrow> closeCampaign a now s = Inl CampaignNotConfigured)
   \<and> (a = owner s \<and> campaignId s \<noteq> 0 \<and> finalized (campaigns s (campaignId s)) \<longrightarrow>
         closeCampaign a now s = Inl CampaignAlreadyFinalized)
   \<and> (a = owner s \<and> campaignId s \<noteq> 0 \<and> \<not> finalized (campaigns s (campaignId s)) \<longrightarrow>
         (\<exists>r s'. closeCampaign a now s = Inr (r, s')))
   \<and> (closeCampaign a now s = Inr (r, s') \<longrightarrow>
         \<not> finalized (campaigns s (campaignId s)) \<and> finalized (campaigns s' (campaignId s))
         \<and> campaignId s' = campaignId s
         \<and> r \<noteq> Uninitialized \<and> decrypt r = decrypt (balances s (self s))
         \<and> (owner s \<noteq> self s \<longrightarrow>
               decrypt (balances s' (owner s))
                 = decrypt (balances s (owner s)) + decrypt (balances s (self s))
               \<and> decrypt (balances s' (self s)) = 0)
         \<and> (campaignId (run s' cs) = campaignId s \<longrightarrow>
               (\<exists>err. closeCampaign a' now' (run s' cs) = Inl err)))
   \<and> (s = run (deploy d v t) ps \<and> d \<noteq> v \<and> list_all (viaContribute v) ps
        \<and> closeCampaign a now s = Inr (r, s') \<longrightarrow>
         decrypt (balances s' d)
           = decrypt (balances s d) + decrypt (totalRaised (campaigns s (campaignId s))))"
proof -
  have 1: "closeCampaign a now s = Inl (OwnableUnauthorizedAccount a)" if "a \<noteq> owner s"
    unfolding closeCampaign_Inl using that by simp
  have 2: "closeCampaign a now s = Inl CampaignNotConfigured" if "a = owner s \<and> campaignId s = 0"
    unfolding closeCampaign_Inl using that by simp
  have 3: "closeCampaign a now s = Inl CampaignAlreadyFinalized"
    if "a = owner s \<and> campaignId s \<noteq> 0 \<and> finalized (campaigns s (campaignId s))"
    unfolding closeCampaign_Inl using that by simp
  have 4: "\<exists>r s'. closeCampaign a now s = Inr (r, s')"
    if "a = owner s \<and> campaignId s \<noteq> 0 \<and> \<not> finalized (campaigns s (campaignId s))"
  proof -
    from that closeCampaign_fails_iff[of a now s]
    have "\<forall>err. closeCampaign a now s \<noteq> Inl err" by blast
    then show ?thesis by (cases "closeCampaign a now s") auto
  qed
  have 5: "\<not> finalized (campaigns s (campaignId s)) \<and> finalized (campaigns s' (campaignId s))
         \<and> campaignId s' = campaignId s
         \<and> r \<noteq> Uninitialized \<and> decrypt r = decrypt (balances s (self s))
         \<and> (owner s \<noteq> self s \<longrightarrow>
               decrypt (balances s' (owner s))
                 = decrypt (balances s (owner s)) + decrypt (balances s (self s))
               \<and> decrypt (balances s' (self s)) = 0)
         \<and> (campaignId (run s' cs) = campaignId s \<longrightarrow>
               (\<exists>err. closeCampaign a' now' (run s' cs) = Inl err))"
    if c: "closeCampaign a now s = Inr (r, s')"
  proof -
    note f = closeCampaign_Inr[OF c]
    from f have g: "finalized (campaigns s' (campaignId s))" "campaignId s \<le> campaignId s'"
      by simp_all
    note fr = frozen_run[OF g, of cs]
    have l: "\<exists>err. closeCampaign a' now' (run s' cs) = Inl err"
      if "campaignId (run s' cs) = campaignId s"
      using that fr g closeCampaign_fails_iff[of a' now' "run s' cs"] by simp
    from f have b: "r \<noteq> Uninitialized \<and> decrypt r = decrypt (balances s (self s))
         \<and> (owner s \<noteq> self s \<longrightarrow>
               decrypt (balances s' (owner s))
                 = decrypt (balances s (owner s)) + decrypt (balances s (self s))
               \<and> decrypt (balances s' (self s)) = 0)"
      by (cases "balances s (self s) = Uninitialized") auto
    from f l b show ?thesis by simp
  qed
  have 6: "decrypt (balances s' d)
           = decrypt (balances s d) + decrypt (totalRaised (campaigns s (campaignId s)))"
    if h: "s = run (deploy d v t) ps \<and> d \<noteq> v \<and> list_all (viaContribute v) ps
        \<and> closeCampaign a now s = Inr (r, s')"
  proof -
    from h have s: "s = run (deploy d v t) ps" and dv: "d \<noteq> v"
      and ps: "list_all (viaContribute v) ps" and c: "closeCampaign a now s = Inr (r, s')"
      by blast+
    have o: "owner s = d" "self s = v" unfolding s by (simp_all add: deploy_def)
    have "balanceIsTotal s" unfolding s using dv ps by (rule balanceIsTotal_run)
    with closeCampaign_Inr[OF c]
    have "decrypt (balances s (self s)) = decrypt (totalRaised (campaigns s (campaignId s)))"
      by (simp add: balanceIsTotal_def)
    with 5[OF c] o dv show ?thesis by simp
  qed
  show ?thesis using 1 2 3 4 5 6 by blast
qed

theorem closeCampaign_behaviour_witness:
  "closeCampaign alice 2500 funded = Inl (OwnableUnauthorizedAccount alice)
   \<and> closeCampaign fundraiser 2500 deployed = Inl CampaignNotConfigured
   \<and> closeCampaign fundraiser 2600 closed = Inl CampaignAlreadyFinalized
   \<and> closeCampaign fundraiser 2500 funded = Inr (Handle 14 1250000, closed)
   \<and> \<not> finalized (campaigns funded 1) \<and> finalized (campaigns closed 1)
   \<and> decrypt (totalRaised (campaigns funded 1)) = 1250000
   \<and> decrypt (balances closed fundraiser) = decrypt (balances funded fundraiser) + 1250000
   \<and> decrypt (balances closed vault) = 0
   \<and> (\<exists>err. closeCampaign fundraiser 2700 (run closed [Contribute alice 2600 100 True]) = Inl err)"
proof -
  note th = closeCampaign_behaviour[where d = fundraiser and v = vault and t = cusdt
      and ps = "[Configure fundraiser 1000 ''Demo'' 2000000 4600, Mint alice 5000000,
       SetOperator alice vault 4600, Contribute alice 2000 1250000 True]"
      and cs = "[Contribute alice 2600 100 True]" and a' = fundraiser and now' = 2700
      and r = "Handle 14 1250000" and s' = closed]
  have 1: "closeCampaign alice 2500 funded = Inl (OwnableUnauthorizedAccount alice)"
    using th[where a = alice and now = 2500 and s = funded]
    by (simp add: funded_fields parties_distinct)
  have 2: "closeCampaign fundraiser 2500 deployed = Inl CampaignNotConfigured"
    using th[where a = fundraiser and now = 2500 and s = deployed]
    by (simp add: deployed_fields)
  have 3: "closeCampaign fundraiser 2600 closed = Inl CampaignAlreadyFinalized"
    using th[where a = fundraiser and now = 2600 and s = closed]
    by (simp add: closed_fields)
  have c: "campaignId (run closed [Contribute alice 2600 100 True]) = 1"
    by (simp add: run_def contribute_def closed_fields)
  have 4: "\<not> finalized (campaigns funded 1) \<and> finalized (campaigns closed 1)
   \<and> decrypt (balances closed fundraiser) = decrypt (balances funded fundraiser) + 1250000
   \<and> decrypt (balances closed vault) = 0
   \<and> (\<exists>err. closeCampaign fundraiser 2700 (run closed [Contribute alice 2600 100 True]) = Inl err)"
    using th[where a = fundraiser and now = 2500 and s = funded] funded_close c
    by (simp add: funded_fields parties_distinct)
  have 5: "decrypt (balances closed fundraiser)
      = decrypt (balances funded fundraiser) + decrypt (totalRaised (campaigns funded 1))"
    using th[where a = fundraiser and now = 2500 and s = funded] funded_close funded_run
    by (simp add: parties_distinct funded_fields)
  show ?thesis
    using 1 2 3 4 5 funded_close by (simp add: funded_fields)
qed

end
